theory Spec2Isabelle
  imports Complex_Main
begin

section \<open>Quality metrics of spike-sorted units (bombcell/quality_metrics.py)\<close>

subsection \<open>NumPy float values\<close>

text \<open>
  The metric table, the thresholds and the intermediate results of the source are NumPy
  float64 values. They are modelled as exact reals extended by the three special values
  the source relies on: the two infinities and NaN. Rounding and overflow of finite
  values are not modelled. Every ordered comparison with NaN is false, as in NumPy.
\<close>

datatype npfloat = Fin real | PInf | NInf | NaN

fun np_lt :: "npfloat \<Rightarrow> npfloat \<Rightarrow> bool" where
  "np_lt NaN y = False"
| "np_lt x NaN = False"
| "np_lt (Fin a) (Fin b) = (a < b)"
| "np_lt x NInf = False"
| "np_lt NInf y = True"
| "np_lt PInf y = False"
| "np_lt (Fin a) PInf = True"

definition np_gt :: "npfloat \<Rightarrow> npfloat \<Rightarrow> bool" where
  "np_gt x y = np_lt y x"

fun np_isnan :: "npfloat \<Rightarrow> bool" where
  "np_isnan NaN = True"
| "np_isnan x = False"

subsection \<open>The unit classifier: \<open>get_quality_unit_type\<close>\<close>

text \<open>The entries of the \<open>param\<close> dictionary that the classifier reads.\<close>

record param_classify =
  max_n_peaks :: npfloat
  max_n_troughs :: npfloat
  min_wv_duration :: npfloat
  max_wv_duration :: npfloat
  max_wv_baseline_fraction :: npfloat
  max_scnd_peak_to_trough_ratio_noise :: npfloat
  compute_spatial_decay :: bool
  sp_decay_lin_fit :: bool
  min_spatial_decay_slope :: npfloat
  min_spatial_decay_slope_exp :: npfloat
  max_spatial_decay_slope_exp :: npfloat
  min_trough_to_peak2_ratio_non_somatic :: npfloat
  min_width_first_peak_non_somatic :: npfloat
  min_width_main_trough_non_somatic :: npfloat
  max_peak1_to_peak2_ratio_non_somatic :: npfloat
  max_main_peak_to_trough_ratio_non_somatic :: npfloat
  max_perc_spikes_missing :: npfloat
  min_num_spikes_total :: npfloat
  max_RPV :: npfloat
  min_presence_ratio :: npfloat
  extract_raw_waveforms :: bool
  min_amplitude :: npfloat
  min_SNR :: npfloat
  compute_drift :: bool
  max_drift :: npfloat
  compute_distance_metrics :: bool
  iso_d_min :: npfloat
  lratio_max :: npfloat
  split_good_and_mua_non_somatic :: bool

text \<open>
  One row of the quality metric table. The source keeps the table as a dictionary of
  columns, all of length \<open>n_units\<close>, and evaluates every rule on whole columns; the
  model keeps the table as the list of its rows and evaluates the same rules row by row.
\<close>

record quality_metrics =
  n_peaks :: npfloat
  n_troughs :: npfloat
  waveform_duration_peak_trough :: npfloat
  waveform_baseline_flatness :: npfloat
  scnd_peak_to_trough_ratio :: npfloat
  spatial_decay_slope :: npfloat
  trough_to_peak2_ratio :: npfloat
  peak_before_width :: npfloat
  trough_width :: npfloat
  peak1_to_peak2_ratio :: npfloat
  main_peak_to_trough_ratio :: npfloat
  percent_missing_gaussian :: npfloat
  n_spikes :: npfloat
  fraction_RPVs :: npfloat
  presence_ratio_metric :: npfloat
  raw_amplitude :: npfloat
  signal_to_noise_ratio :: npfloat
  max_drift_estimate_metric :: npfloat
  isolation_dist :: npfloat
  l_ratio :: npfloat

definition noise_mask :: "param_classify \<Rightarrow> quality_metrics \<Rightarrow> bool" where
  "noise_mask p q =
     (let m = (np_isnan (n_peaks q)
               \<or> np_gt (n_peaks q) (max_n_peaks p)
               \<or> np_gt (n_troughs q) (max_n_troughs p)
               \<or> np_lt (waveform_duration_peak_trough q) (min_wv_duration p)
               \<or> np_gt (waveform_duration_peak_trough q) (max_wv_duration p)
               \<or> np_gt (waveform_baseline_flatness q) (max_wv_baseline_fraction p)
               \<or> np_gt (scnd_peak_to_trough_ratio q) (max_scnd_peak_to_trough_ratio_noise p))
      in if compute_spatial_decay p \<and> sp_decay_lin_fit p
         then m \<or> np_lt (spatial_decay_slope q) (min_spatial_decay_slope p)
         else if compute_spatial_decay p
         then m \<or> (np_lt (spatial_decay_slope q) (min_spatial_decay_slope_exp p)
                   \<or> np_gt (spatial_decay_slope q) (max_spatial_decay_slope_exp p))
         else m)"

definition is_non_somatic :: "param_classify \<Rightarrow> quality_metrics \<Rightarrow> bool" where
  "is_non_somatic p q =
     ((np_lt (trough_to_peak2_ratio q) (min_trough_to_peak2_ratio_non_somatic p)
       \<and> np_lt (peak_before_width q) (min_width_first_peak_non_somatic p)
       \<and> np_lt (trough_width q) (min_width_main_trough_non_somatic p)
       \<and> np_gt (peak1_to_peak2_ratio q) (max_peak1_to_peak2_ratio_non_somatic p))
      \<or> np_gt (main_peak_to_trough_ratio q) (max_main_peak_to_trough_ratio_non_somatic p))"

text \<open>
  \<open>unit_type\<close> starts as NaN everywhere (\<open>None\<close> here); \<open>ut_nan\<close> is
  \<open>np.isnan(unit_type)\<close> at the time the MUA mask is built, that is, after the noise
  units have been set to 0.
\<close>

definition mua_mask :: "param_classify \<Rightarrow> quality_metrics \<Rightarrow> bool \<Rightarrow> bool" where
  "mua_mask p q ut_nan =
     (let m0 = (ut_nan \<and> (np_gt (percent_missing_gaussian q) (max_perc_spikes_missing p)
                          \<or> np_lt (n_spikes q) (min_num_spikes_total p)
                          \<or> np_gt (fraction_RPVs q) (max_RPV p)
                          \<or> np_lt (presence_ratio_metric q) (min_presence_ratio p)));
          m1 = (if extract_raw_waveforms p
                then m0 \<or> (ut_nan \<and> (np_lt (raw_amplitude q) (min_amplitude p)
                                     \<or> np_lt (signal_to_noise_ratio q) (min_SNR p)))
                else m0);
          m2 = (if compute_drift p
                then m1 \<or> (ut_nan \<and> np_gt (max_drift_estimate_metric q) (max_drift p))
                else m1)
      in if compute_distance_metrics p
         then m2 \<or> (ut_nan \<and> (np_gt (isolation_dist q) (iso_d_min p)
                              \<or> np_gt (l_ratio q) (lratio_max p)))
         else m2)"

definition unit_type_code :: "param_classify \<Rightarrow> quality_metrics \<Rightarrow> nat" where
  "unit_type_code p q =
     (let ut0 = (if noise_mask p q then Some (0::nat) else None);
          ut1 = (if mua_mask p q (ut0 = None) then Some 2 else ut0);
          ut2 = (case ut1 of None \<Rightarrow> 1 | Some c \<Rightarrow> c)
      in if split_good_and_mua_non_somatic p
         then (if ut2 = 1 \<and> is_non_somatic p q then 3
               else if ut2 = 2 \<and> is_non_somatic p q then 4
               else ut2)
         else (if ut2 \<noteq> 0 \<and> is_non_somatic p q then 3 else ut2))"

definition unit_type_label :: "param_classify \<Rightarrow> nat \<Rightarrow> string" where
  "unit_type_label p c =
     (if c = 0 then ''NOISE''
      else if c = 1 then ''GOOD''
      else if c = 2 then ''MUA''
      else if c = 3 then (if split_good_and_mua_non_somatic p then ''NON-SOMA GOOD''
                          else ''NON-SOMA'')
      else if c = 4 then ''NON-SOMA MUA''
      else '''')"

definition get_quality_unit_type ::
  "param_classify \<Rightarrow> quality_metrics list \<Rightarrow> nat list \<times> string list" where
  "get_quality_unit_type p qs =
     (let unit_type = map (unit_type_code p) qs
      in (unit_type, map (unit_type_label p) unit_type))"

subsection \<open>Errors, array helpers\<close>

text \<open>
  The exceptions NumPy raises on the paths modelled here. A function that can raise
  returns \<open>py_error + 'a\<close>, with \<open>Inl\<close> for the exception.
\<close>

datatype py_error = IndexError | ValueError

fun np_add :: "npfloat \<Rightarrow> npfloat \<Rightarrow> npfloat" where
  "np_add NaN y = NaN"
| "np_add x NaN = NaN"
| "np_add (Fin a) (Fin b) = Fin (a + b)"
| "np_add PInf NInf = NaN"
| "np_add NInf PInf = NaN"
| "np_add PInf y = PInf"
| "np_add x PInf = PInf"
| "np_add NInf y = NInf"
| "np_add x NInf = NInf"

definition np_sum :: "npfloat list \<Rightarrow> npfloat" where
  "np_sum xs = foldl np_add (Fin 0) xs"

text \<open>
  \<open>np.argmax\<close>: the first index of the maximum; a NaN counts as the maximum and ends
  the search; an empty array raises.
\<close>

fun np_argmax_aux :: "npfloat list \<Rightarrow> nat \<Rightarrow> npfloat \<Rightarrow> nat \<Rightarrow> nat" where
  "np_argmax_aux [] i best bi = bi"
| "np_argmax_aux (x # xs) i best bi =
     (if np_isnan best then bi
      else if np_isnan x \<or> np_gt x best then np_argmax_aux xs (Suc i) x i
      else np_argmax_aux xs (Suc i) best bi)"

definition np_argmax :: "npfloat list \<Rightarrow> py_error + nat" where
  "np_argmax xs = (case xs of [] \<Rightarrow> Inl ValueError | x # r \<Rightarrow> Inr (np_argmax_aux r 1 x 0))"

text \<open>\<open>np.diff\<close> of a one-dimensional array.\<close>

definition np_diff :: "'a::minus list \<Rightarrow> 'a list" where
  "np_diff xs = map2 (\<lambda>a b. b - a) xs (tl xs)"

text \<open>The slice \<open>xs[a:b]\<close> for non-negative bounds.\<close>

definition py_slice :: "'a list \<Rightarrow> nat \<Rightarrow> nat \<Rightarrow> 'a list" where
  "py_slice xs a b = drop a (take b xs)"

definition py_first :: "'a list \<Rightarrow> py_error + 'a" where
  "py_first xs = (case xs of [] \<Rightarrow> Inl IndexError | x # r \<Rightarrow> Inr x)"

definition py_last :: "'a list \<Rightarrow> py_error + 'a" where
  "py_last xs = (case xs of [] \<Rightarrow> Inl IndexError | x # r \<Rightarrow> Inr (last xs))"

subsection \<open>The good-time-chunk selector: \<open>time_chunks_to_keep\<close>\<close>

text \<open>
  The matrix \<open>fraction_RPVs\<close> (one row per time chunk, one column per candidate tauR)
  is kept as the list of its columns, so that \<open>np.sum(_, axis=0)\<close> sums each column
  and \<open>fraction_RPVs[:, use_tauR]\<close> is a list lookup. \<open>time_chunks\<close> is the list of
  the chunk edges: chunk \<open>i\<close> runs from edge \<open>i\<close> to edge \<open>i + 1\<close>.
\<close>

text \<open>
  \<open>good_chunk_idx\<close> is \<open>use_these_times_temp\<close>: the indices of the chunks whose
  missing-spike percentage and RPV fraction are both below their thresholds. Operands of
  different lengths raise (broadcasting a length-one operand is not modelled).
\<close>

definition good_chunk_idx ::
  "npfloat list \<Rightarrow> npfloat list \<Rightarrow> npfloat \<Rightarrow> npfloat \<Rightarrow> py_error + nat list" where
  "good_chunk_idx pmg rpv_col max_perc max_RPVs =
     (if length pmg \<noteq> length rpv_col then Inl ValueError
      else Inr (filter (\<lambda>i. np_lt (pmg ! i) max_perc \<and> np_lt (rpv_col ! i) max_RPVs)
                  [0..<length pmg]))"

text \<open>
  \<open>select_times\<close> is the body of the \<open>if use_these_times_temp.size > 0\<close> statement:
  from the good chunk indices to the selected edges \<open>use_these_times\<close>.
\<close>

definition select_times :: "real list \<Rightarrow> nat list \<Rightarrow> py_error + real list" where
  "select_times time_chunks use_these_times_temp =
     (if 0 < length use_these_times_temp then
        (let continuous_times = np_diff (map int use_these_times_temp)
         in if list_ex (\<lambda>d. d = 1) continuous_times then
              (let gaps = map Suc (filter (\<lambda>j. 1 < continuous_times ! j)
                                      [0..<length continuous_times]);
                   chunk_starts = 0 # gaps;
                   chunk_ends = gaps @ [length use_these_times_temp - 1];
                   chunk_lengths = map2 (\<lambda>e s. int e - int s + 1) chunk_ends chunk_starts
               in case np_argmax (map (\<lambda>l. Fin (real_of_int l)) chunk_lengths) of
                    Inl e \<Rightarrow> Inl e
                  | Inr longest_chunk_idx \<Rightarrow>
                      (let cs = chunk_starts ! longest_chunk_idx;
                           ce = chunk_ends ! longest_chunk_idx
                       in if length use_these_times_temp \<le> cs
                             \<or> length use_these_times_temp \<le> ce then Inl IndexError
                          else
                            (let longest_chunk_start = use_these_times_temp ! cs;
                                 longest_chunk_end = use_these_times_temp ! ce
                             in Inr (py_slice time_chunks longest_chunk_start
                                       (longest_chunk_end + 1)))))
            else Inr (py_slice time_chunks (use_these_times_temp ! 0)
                        (use_these_times_temp ! 0 + 2)))
      else Inr time_chunks)"

record param_chunks =
  max_RPV_c :: npfloat
  max_perc_spikes_missing_c :: npfloat

record kept_chunks =
  these_spike_times_k :: "real list"
  these_amplitudes_k :: "real list"
  these_spike_clusters_k :: "int list"
  use_this_time_start :: real
  use_this_time_end :: real
  use_tauR :: nat

definition time_chunks_to_keep ::
  "npfloat list \<Rightarrow> npfloat list list \<Rightarrow> real list \<Rightarrow> real list \<Rightarrow> real list \<Rightarrow>
   int list \<Rightarrow> real list \<Rightarrow> param_chunks \<Rightarrow> py_error + kept_chunks" where
  "time_chunks_to_keep pmg fraction_RPVs_cols time_chunks these_spike_times these_amplitudes
     spike_clusters spike_times_seconds prm =
     (case np_argmax (map np_sum fraction_RPVs_cols) of
        Inl e \<Rightarrow> Inl e
      | Inr tau \<Rightarrow>
     (case good_chunk_idx pmg (fraction_RPVs_cols ! tau)
             (max_perc_spikes_missing_c prm) (max_RPV_c prm) of
        Inl e \<Rightarrow> Inl e
      | Inr temp \<Rightarrow>
     (case select_times time_chunks temp of
        Inl e \<Rightarrow> Inl e
      | Inr use_these_times \<Rightarrow>
     (case (py_first use_these_times, py_last use_these_times) of
        (Inr t_start, Inr t_end) \<Rightarrow>
          if \<not> (length these_amplitudes = length these_spike_times
                \<and> length spike_clusters = length spike_times_seconds) then Inl IndexError
          else Inr \<lparr>
            these_spike_times_k =
              filter (\<lambda>t. t_start \<le> t \<and> t \<le> t_end) these_spike_times,
            these_amplitudes_k =
              map snd (filter (\<lambda>(t, a). t_start \<le> t \<and> t \<le> t_end)
                         (zip these_spike_times these_amplitudes)),
            these_spike_clusters_k =
              map2 (\<lambda>c t. if t < t_start \<or> t_end < t then - 1 else c)
                spike_clusters spike_times_seconds,
            use_this_time_start = t_start,
            use_this_time_end = t_end,
            use_tauR = tau \<rparr>
      | (Inl e, _) \<Rightarrow> Inl e
      | (_, Inl e) \<Rightarrow> Inl e))))"

subsection \<open>\<open>np.arange\<close>, \<open>np.percentile\<close>, extrema\<close>

text \<open>
  \<open>np.arange(start, stop, step)\<close> on floats has \<open>ceil((stop - start) / step)\<close>
  entries \<open>start + i * step\<close>; a zero step raises.
\<close>

definition np_arange :: "real \<Rightarrow> real \<Rightarrow> real \<Rightarrow> py_error + real list" where
  "np_arange start stop step =
     (if step = 0 then Inl ValueError
      else Inr (map (\<lambda>i. start + real i * step) [0..<nat \<lceil>(stop - start) / step\<rceil>]))"

text \<open>
  \<open>np.percentile(a, q)\<close> with the default linear interpolation between the two order
  statistics around position \<open>(n - 1) * q / 100\<close>. An empty array raises.
\<close>

definition np_percentile :: "real list \<Rightarrow> real \<Rightarrow> py_error + real" where
  "np_percentile a q =
     (if q < 0 \<or> 100 < q then Inl ValueError
      else if a = [] then Inl IndexError
      else (let s = sort a;
                n = length s;
                v = real (n - 1) * q / 100;
                prev = nat \<lfloor>v\<rfloor>;
                next = min (prev + 1) (n - 1);
                gamma = v - real prev
            in Inr (s ! prev + gamma * (s ! next - s ! prev))))"

definition np_max :: "real list \<Rightarrow> py_error + real" where
  "np_max xs = (case xs of [] \<Rightarrow> Inl ValueError | x # r \<Rightarrow> Inr (fold max r x))"

definition np_min :: "real list \<Rightarrow> py_error + real" where
  "np_min xs = (case xs of [] \<Rightarrow> Inl ValueError | x # r \<Rightarrow> Inr (fold min r x))"

subsection \<open>The presence ratio: \<open>presence_ratio\<close>\<close>

definition spikes_per_bin :: "real list \<Rightarrow> real list \<Rightarrow> real list" where
  "spikes_per_bin these_spike_times presence_ratio_bins =
     map (\<lambda>x. real (length (filter (\<lambda>t. presence_ratio_bins ! x \<le> t
                                        \<and> t < presence_ratio_bins ! (x + 1))
                              these_spike_times)))
       [0..<length presence_ratio_bins - 1]"

definition full_bins :: "real list \<Rightarrow> real \<Rightarrow> real list" where
  "full_bins spb p90 = map (\<lambda>c. if 5 / 100 * p90 \<le> c then 1 else 0) spb"

definition presence_ratio :: "real list \<Rightarrow> real \<Rightarrow> real \<Rightarrow> real \<Rightarrow> py_error + real" where
  "presence_ratio these_spike_times t_start t_end presence_ratio_bin_size =
     (case np_arange t_start t_end presence_ratio_bin_size of
        Inl e \<Rightarrow> Inl e
      | Inr presence_ratio_bins \<Rightarrow>
          (let spb = spikes_per_bin these_spike_times presence_ratio_bins
           in case np_percentile spb 90 of
                Inl e \<Rightarrow> Inl e
              | Inr p90 \<Rightarrow>
                  Inr (sum_list (full_bins spb p90) / real (length (full_bins spb p90)))))"

subsection \<open>The drift estimator: \<open>max_drift_estimate\<close>\<close>

text \<open>
  The per-spike depth \<open>spike_depth_in_channels\<close> (lines 881 to 893: the squared first
  principal components weighted by the channel depths) is an input of the model. It is a
  quotient of finite sums, hence a finite value or NaN.
\<close>

definition np_nanmedian :: "npfloat list \<Rightarrow> npfloat" where
  "np_nanmedian ds =
     (let v = sort (concat (map (\<lambda>d. case d of Fin x \<Rightarrow> [x] | _ \<Rightarrow> []) ds));
          n = length v
      in if n = 0 then NaN
         else if odd n then Fin (v ! (n div 2))
         else Fin ((v ! (n div 2 - 1) + v ! (n div 2)) / 2))"

text \<open>The bin width after the adjustment for briefly active units (lines 898, 899).\<close>

definition drift_bin_size_used :: "real \<Rightarrow> real \<Rightarrow> real \<Rightarrow> real" where
  "drift_bin_size_used t_min t_max drift_bin_size =
     (if t_max - t_min < 2 * drift_bin_size then (t_max - t_min) / 2 else drift_bin_size)"

definition drift_time_bins :: "real list \<Rightarrow> real \<Rightarrow> py_error + real list" where
  "drift_time_bins these_spike_times drift_bin_size =
     (case (np_min these_spike_times, np_max these_spike_times) of
        (Inr t_min, Inr t_max) \<Rightarrow>
          np_arange t_min t_max (drift_bin_size_used t_min t_max drift_bin_size)
      | (Inl e, _) \<Rightarrow> Inl e
      | (_, Inl e) \<Rightarrow> Inl e)"

text \<open>
  \<open>median_spike_depth\<close> has one entry per time bin, that is one entry less than
  \<open>time_bins\<close> has edges; \<open>np.zeros(-1)\<close> raises when there is no edge at all.
\<close>

definition median_spike_depth ::
  "npfloat list \<Rightarrow> real list \<Rightarrow> real \<Rightarrow> py_error + npfloat list" where
  "median_spike_depth spike_depth_in_channels these_spike_times drift_bin_size =
     (case drift_time_bins these_spike_times drift_bin_size of
        Inl e \<Rightarrow> Inl e
      | Inr time_bins \<Rightarrow>
          if time_bins = [] then Inl ValueError
          else if length spike_depth_in_channels \<noteq> length these_spike_times
          then Inl IndexError
          else
            (let w = drift_bin_size_used (fold min (tl these_spike_times) (hd these_spike_times))
                       (fold max (tl these_spike_times) (hd these_spike_times)) drift_bin_size
             in Inr (map (\<lambda>time_bin_start.
                       np_nanmedian (map snd (filter (\<lambda>(t, d). time_bin_start \<le> t
                                                        \<and> t < time_bin_start + w)
                                                (zip these_spike_times
                                                   spike_depth_in_channels))))
                     (butlast time_bins))))"

definition finite_values :: "npfloat list \<Rightarrow> real list" where
  "finite_values ds = concat (map (\<lambda>d. case d of Fin x \<Rightarrow> [x] | _ \<Rightarrow> []) ds)"

text \<open>
  \<open>np.nanmax\<close> and \<open>np.nanmin\<close> raise on an empty array and give NaN on an array of
  NaNs only.
\<close>

definition max_drift_estimate ::
  "npfloat list \<Rightarrow> real list \<Rightarrow> real \<Rightarrow> py_error + npfloat \<times> real" where
  "max_drift_estimate spike_depth_in_channels these_spike_times drift_bin_size =
     (case median_spike_depth spike_depth_in_channels these_spike_times drift_bin_size of
        Inl e \<Rightarrow> Inl e
      | Inr msd \<Rightarrow>
          if msd = [] then Inl ValueError
          else
            (let fv = finite_values msd;
                 cumulative_drift_estimate = sum_list (map abs (np_diff fv))
             in case fv of
                  [] \<Rightarrow> Inr (NaN, cumulative_drift_estimate)
                | x # r \<Rightarrow> Inr (Fin (fold max r x - fold min r x),
                                cumulative_drift_estimate)))"

text \<open>A parameter set and a metric row used in the concrete evaluations below.\<close>

definition example_param :: param_classify where
  "example_param =
     \<lparr> max_n_peaks = Fin 2, max_n_troughs = Fin 1, min_wv_duration = Fin 100,
       max_wv_duration = Fin 1150, max_wv_baseline_fraction = Fin (3/10),
       max_scnd_peak_to_trough_ratio_noise = Fin (4/5),
       compute_spatial_decay = False, sp_decay_lin_fit = False,
       min_spatial_decay_slope = Fin (-8/1000),
       min_spatial_decay_slope_exp = Fin (1/100),
       max_spatial_decay_slope_exp = Fin (1/10),
       min_trough_to_peak2_ratio_non_somatic = Fin 5,
       min_width_first_peak_non_somatic = Fin 4,
       min_width_main_trough_non_somatic = Fin 5,
       max_peak1_to_peak2_ratio_non_somatic = Fin 3,
       max_main_peak_to_trough_ratio_non_somatic = Fin (4/5),
       max_perc_spikes_missing = Fin 20, min_num_spikes_total = Fin 300,
       max_RPV = Fin (1/10), min_presence_ratio = Fin (7/10),
       extract_raw_waveforms = False, min_amplitude = Fin 40, min_SNR = Fin 5,
       compute_drift = False, max_drift = Fin 100,
       compute_distance_metrics = True, iso_d_min = Fin 20,
       lratio_max = Fin (3/10),
       split_good_and_mua_non_somatic = False \<rparr>"

definition example_unit :: quality_metrics where
  "example_unit =
     \<lparr> n_peaks = Fin 1, n_troughs = Fin 1, waveform_duration_peak_trough = Fin 400,
       waveform_baseline_flatness = Fin (1/10), scnd_peak_to_trough_ratio = Fin (1/5),
       spatial_decay_slope = NaN, trough_to_peak2_ratio = Fin 10,
       peak_before_width = Fin 6, trough_width = Fin 8,
       peak1_to_peak2_ratio = Fin 1, main_peak_to_trough_ratio = Fin (1/5),
       percent_missing_gaussian = Fin 0, n_spikes = Fin 1000, fraction_RPVs = Fin 0,
       presence_ratio_metric = Fin 1, raw_amplitude = NaN,
       signal_to_noise_ratio = NaN, max_drift_estimate_metric = NaN,
       isolation_dist = Fin 10, l_ratio = Fin (1/100) \<rparr>"

subsection \<open>Indexing and sequencing\<close>

text \<open>An integer index into an array: negative indices count from the end.\<close>

definition py_get :: "'a list \<Rightarrow> int \<Rightarrow> py_error + 'a" where
  "py_get xs i =
     (if 0 \<le> i \<and> i < int (length xs) then Inr (xs ! nat i)
      else if - int (length xs) \<le> i \<and> i < 0 then Inr (xs ! nat (i + int (length xs)))
      else Inl IndexError)"

text \<open>Running a list of computations in order stops at the first exception.\<close>

fun sequence_results :: "('e + 'a) list \<Rightarrow> 'e + 'a list" where
  "sequence_results [] = Inr []"
| "sequence_results (x # xs) =
     (case x of
        Inl e \<Rightarrow> Inl e
      | Inr v \<Rightarrow> (case sequence_results xs of Inl e \<Rightarrow> Inl e | Inr vs \<Rightarrow> Inr (v # vs)))"

subsection \<open>The waveform shape analyser: \<open>waveform_shape\<close>\<close>

record waveform_metrics =
  n_peaks_w :: npfloat
  n_troughs_w :: npfloat
  waveform_duration_peak_trough_w :: npfloat
  spatial_decay_slope_w :: npfloat
  waveform_baseline_w :: npfloat
  scnd_peak_to_trough_ratio_w :: npfloat
  peak1_to_peak2_ratio_w :: npfloat
  main_peak_to_trough_ratio_w :: npfloat
  trough_to_peak2_ratio_w :: npfloat
  peak_before_width_w :: npfloat
  trough_width_w :: npfloat

text \<open>
  \<open>this_waveform = template_waveforms[this_unit, :, peak_channels[this_unit]]\<close>, with
  the template tensor indexed by unit, then time sample, then channel.
\<close>

definition this_waveform ::
  "npfloat list list list \<Rightarrow> int \<Rightarrow> int list \<Rightarrow> py_error + npfloat list" where
  "this_waveform template_waveforms this_unit peak_channels =
     (case py_get peak_channels this_unit of
        Inl e \<Rightarrow> Inl e
      | Inr ch \<Rightarrow>
          (case py_get template_waveforms this_unit of
             Inl e \<Rightarrow> Inl e
           | Inr samples \<Rightarrow> sequence_results (map (\<lambda>row. py_get row ch) samples)))"

definition nan_waveform_metrics :: waveform_metrics where
  "nan_waveform_metrics =
     \<lparr> n_peaks_w = NaN, n_troughs_w = NaN, waveform_duration_peak_trough_w = NaN,
       spatial_decay_slope_w = NaN, waveform_baseline_w = NaN,
       scnd_peak_to_trough_ratio_w = NaN, peak1_to_peak2_ratio_w = NaN,
       main_peak_to_trough_ratio_w = NaN, trough_to_peak2_ratio_w = NaN,
       peak_before_width_w = NaN, trough_width_w = NaN \<rparr>"

text \<open>
  The analysis of a waveform without NaN (lines 1024 to 1324: peak and trough detection
  with \<open>scipy.signal.find_peaks\<close>, the ratios, the spatial decay fit with
  \<open>scipy.optimize.curve_fit\<close>, the baseline fraction) is the parameter
  \<open>analyse\<close>, applied to the waveform; the model fixes only when it is reached.
\<close>

definition waveform_shape ::
  "(npfloat list \<Rightarrow> py_error + waveform_metrics) \<Rightarrow> npfloat list list list \<Rightarrow> int \<Rightarrow>
   int list \<Rightarrow> py_error + waveform_metrics" where
  "waveform_shape analyse template_waveforms this_unit peak_channels =
     (case this_waveform template_waveforms this_unit peak_channels of
        Inl e \<Rightarrow> Inl e
      | Inr w \<Rightarrow> if list_ex np_isnan w then Inr nan_waveform_metrics else analyse w)"

subsection \<open>The missing-spike estimator: \<open>perc_spikes_missing\<close>\<close>

text \<open>
  \<open>np.histogram(a, bins=n_bins)\<close>: equal-width bins between the minimum and the
  maximum of the data (widened by 1/2 on both sides when they coincide, and 0 to 1 for
  no data); the last bin includes its upper edge. Returns the counts and the edges.
\<close>

definition np_histogram :: "real list \<Rightarrow> nat \<Rightarrow> nat list \<times> real list" where
  "np_histogram a n_bins =
     (let first_edge = (if a = [] then 0 else fold min (tl a) (hd a));
          last_edge = (if a = [] then 1 else fold max (tl a) (hd a));
          lo = (if first_edge = last_edge then first_edge - 1 / 2 else first_edge);
          hi = (if first_edge = last_edge then last_edge + 1 / 2 else last_edge);
          bin_of = (\<lambda>x. min (n_bins - 1) (nat \<lfloor>(x - lo) * real n_bins / (hi - lo)\<rfloor>))
      in (map (\<lambda>b. length (filter (\<lambda>x. bin_of x = b) a)) [0..<n_bins],
          map (\<lambda>i. lo + real i * (hi - lo) / real n_bins) [0..<n_bins + 1]))"

text \<open>
  The amplitudes of the spikes of one time chunk: \<open>these_amplitudes[chunk_idx]\<close>, a
  boolean mask built from the spike times, which must have the length of the amplitudes.
\<close>

definition amplitudes_in_chunk ::
  "real list \<Rightarrow> real list \<Rightarrow> real \<Rightarrow> real \<Rightarrow> py_error + real list" where
  "amplitudes_in_chunk these_amplitudes these_spike_times t0 t1 =
     (if length these_amplitudes = length these_spike_times
      then Inr (map snd (filter (\<lambda>(t, a). t0 \<le> t \<and> t < t1)
                           (zip these_spike_times these_amplitudes)))
      else Inl IndexError)"

text \<open>
  One pass of the loop over the time chunks, from the amplitudes of the chunk to the
  pair (Gaussian estimate, symmetric estimate). The two estimators of a chunk with more
  than 5 spikes (lines 393 to 495: median filter, mirrored surrogate, the cut-off test
  and the fit by \<open>scipy.optimize.curve_fit\<close>, which can raise) are the parameter
  \<open>estimate\<close>, applied to the amplitudes without outliers, the histogram counts and the
  bin edges.
\<close>

definition perc_spikes_missing_chunk ::
  "(real list \<Rightarrow> nat list \<Rightarrow> real list \<Rightarrow> py_error + npfloat \<times> npfloat) \<Rightarrow> real list \<Rightarrow>
   py_error + npfloat \<times> npfloat" where
  "perc_spikes_missing_chunk estimate these_amplitudes_here =
     (if these_amplitudes_here = [] then Inr (NaN, NaN)
      else
        (case (np_percentile these_amplitudes_here 1, np_percentile these_amplitudes_here 99) of
           (Inr q1, Inr q99) \<Rightarrow>
             (let iqr = q99 - q1;
                  kept = filter (\<lambda>a. \<not> q99 + 10 * iqr < a) these_amplitudes_here;
                  h = np_histogram kept 50
              in if 5 < sum_list (fst h) then estimate kept (fst h) (snd h)
                 else Inr (NaN, NaN))
         | (Inl e, _) \<Rightarrow> Inl e
         | (_, Inl e) \<Rightarrow> Inl e))"

definition perc_spikes_missing ::
  "(real list \<Rightarrow> nat list \<Rightarrow> real list \<Rightarrow> py_error + npfloat \<times> npfloat) \<Rightarrow> real list \<Rightarrow>
   real list \<Rightarrow> real list \<Rightarrow> py_error + npfloat list \<times> npfloat list" where
  "perc_spikes_missing estimate these_amplitudes these_spike_times time_chunks =
     (if time_chunks = [] then Inl ValueError
      else
        (case sequence_results
                (map (\<lambda>i. case amplitudes_in_chunk these_amplitudes these_spike_times
                                  (time_chunks ! i) (time_chunks ! (i + 1)) of
                             Inl e \<Rightarrow> Inl e
                           | Inr here \<Rightarrow> perc_spikes_missing_chunk estimate here)
                   [0..<length time_chunks - 1]) of
           Inl e \<Rightarrow> Inl e
         | Inr rs \<Rightarrow> Inr (map fst rs, map snd rs)))"

subsection \<open>The RPV estimator: \<open>fraction_RP_violations\<close>\<close>


















subsection \<open>The duplicate spike resolver: \<open>remove_duplicates\<close>\<close>

text \<open>
  The batch holds the spike times after their cast to float32 (see the batch driver
  below); these values are exact reals here, and the rounding of the difference of two
  of them is not modelled (the difference of two float32 integers is exact below
  \<open>2\<^sup>2\<^sup>4\<close>). \<open>batch_spike_times_samples\<close> is overwritten with NaN where a spike is marked:
  \<open>None\<close> stands for NaN. \<open>remove_idx\<close> holds 0 or 1 in the source and a truth value
  here. The function is compiled by Numba, which wraps a negative index around once and
  does not check bounds; the model wraps in the same way and reports an index outside
  the array as \<open>IndexError\<close>, as the interpreted function does.
\<close>

definition py_index :: "nat \<Rightarrow> int \<Rightarrow> nat option" where
  "py_index n i =
     (if 0 \<le> i \<and> i < int n then Some (nat i)
      else if - int n \<le> i \<and> i < 0 then Some (nat (i + int n))
      else None)"

record dup_state =
  batch_spike_times_samples :: "real option list"
  remove_idx :: "bool list"

text \<open>\<open>np.abs(t1 - t2) <= window\<close>, false when a time is NaN.\<close>

definition within_window :: "real option \<Rightarrow> real option \<Rightarrow> real \<Rightarrow> bool" where
  "within_window a b w =
     (case a of None \<Rightarrow> False
      | Some x \<Rightarrow> (case b of None \<Rightarrow> False | Some y \<Rightarrow> \<bar>x - y\<bar> \<le> w))"

definition mark_removed :: "dup_state \<Rightarrow> nat \<Rightarrow> dup_state" where
  "mark_removed st j =
     st\<lparr> batch_spike_times_samples := (batch_spike_times_samples st)[j := None],
         remove_idx := (remove_idx st)[j := True] \<rparr>"

text \<open>
  The body of the inner loop for the pair \<open>spike_idx1\<close>, \<open>spike_idx2\<close>; the second
  index can be negative. \<open>unit_spike_counts\<close> is \<open>np.bincount(batch_spike_clusters)\<close>.
\<close>

definition compare_pair ::
  "int list \<Rightarrow> real list \<Rightarrow> int list \<Rightarrow> int list \<Rightarrow> real \<Rightarrow> nat \<Rightarrow> int \<Rightarrow> dup_state \<Rightarrow>
   py_error + dup_state" where
  "compare_pair batch_spike_clusters batch_template_amplitudes batch_spike_clusters_flat
     peak_channels window spike_idx1 spike_idx2 st =
     (if int spike_idx1 = spike_idx2 then Inr st
      else
        (case py_index (length (remove_idx st)) spike_idx2 of
           None \<Rightarrow> Inl IndexError
         | Some j \<Rightarrow>
             if remove_idx st ! j then Inr st
             else
               (case py_get peak_channels (batch_spike_clusters_flat ! spike_idx1) of
                  Inl e \<Rightarrow> Inl e
                | Inr p1 \<Rightarrow>
                    (case py_get peak_channels (batch_spike_clusters_flat ! j) of
                       Inl e \<Rightarrow> Inl e
                     | Inr p2 \<Rightarrow>
                         if p1 = p2 then
                           (let c1 = batch_spike_clusters ! spike_idx1;
                                c2 = batch_spike_clusters ! j;
                                st1 =
                                  (if c1 = c2
                                      \<and> within_window (batch_spike_times_samples st ! spike_idx1)
                                           (batch_spike_times_samples st ! j) window
                                   then (if batch_template_amplitudes ! spike_idx1
                                            < batch_template_amplitudes ! j
                                         then mark_removed st spike_idx1
                                         else mark_removed st j)
                                   else st)
                            in Inr
                              (if c1 = c2 then st1
                               else if within_window (batch_spike_times_samples st1 ! spike_idx1)
                                         (batch_spike_times_samples st1 ! j) window
                               then (if count_list batch_spike_clusters c1
                                        < count_list batch_spike_clusters c2
                                     then mark_removed st1 spike_idx1
                                     else mark_removed st1 j)
                               else st1))
                         else Inr st))))"

text \<open>The inner loop over \<open>np.arange(spike_idx1 - 25, min(spike_idx1 + 25, num_spikes))\<close>.\<close>

fun inner_loop ::
  "int list \<Rightarrow> real list \<Rightarrow> int list \<Rightarrow> int list \<Rightarrow> real \<Rightarrow> nat \<Rightarrow> int list \<Rightarrow> dup_state \<Rightarrow>
   py_error + dup_state" where
  "inner_loop cl am fl pc w spike_idx1 [] st = Inr st"
| "inner_loop cl am fl pc w spike_idx1 (spike_idx2 # rest) st =
     (case compare_pair cl am fl pc w spike_idx1 spike_idx2 st of
        Inl e \<Rightarrow> Inl e
      | Inr st' \<Rightarrow> inner_loop cl am fl pc w spike_idx1 rest st')"

definition neighbour_idxs :: "nat \<Rightarrow> nat \<Rightarrow> int list" where
  "neighbour_idxs spike_idx1 num_spikes =
     [int spike_idx1 - 25 .. min (int spike_idx1 + 25) (int num_spikes) - 1]"

text \<open>The outer loop over \<open>range(num_spikes)\<close>; a spike already marked is skipped.\<close>

fun outer_loop ::
  "int list \<Rightarrow> real list \<Rightarrow> int list \<Rightarrow> int list \<Rightarrow> real \<Rightarrow> nat list \<Rightarrow> dup_state \<Rightarrow>
   py_error + dup_state" where
  "outer_loop cl am fl pc w [] st = Inr st"
| "outer_loop cl am fl pc w (spike_idx1 # rest) st =
     (if remove_idx st ! spike_idx1 then outer_loop cl am fl pc w rest st
      else
        (case inner_loop cl am fl pc w spike_idx1
                (neighbour_idxs spike_idx1 (length (remove_idx st))) st of
           Inl e \<Rightarrow> Inl e
         | Inr st' \<Rightarrow> outer_loop cl am fl pc w rest st'))"

text \<open>
  \<open>remove_duplicates\<close> on one batch. The four batch arrays are slices over the same
  index range; arrays of different lengths are reported as \<open>IndexError\<close>. A negative
  cluster id makes \<open>np.bincount\<close> raise.
\<close>

definition remove_duplicates ::
  "real list \<Rightarrow> int list \<Rightarrow> real list \<Rightarrow> int list \<Rightarrow> int list \<Rightarrow> real \<Rightarrow>
   py_error + bool list" where
  "remove_duplicates batch_times batch_spike_clusters batch_template_amplitudes
     batch_spike_clusters_flat peak_channels duplicate_spike_window_samples =
     (let num_spikes = length batch_times
      in if \<not> (length batch_spike_clusters = num_spikes
                \<and> length batch_template_amplitudes = num_spikes
                \<and> length batch_spike_clusters_flat = num_spikes) then Inl IndexError
         else if list_ex (\<lambda>c. c < 0) batch_spike_clusters then Inl ValueError
         else
           (case outer_loop batch_spike_clusters batch_template_amplitudes
                   batch_spike_clusters_flat peak_channels duplicate_spike_window_samples
                   [0..<num_spikes]
                   \<lparr> batch_spike_times_samples = map Some batch_times,
                     remove_idx = replicate num_spikes False \<rparr> of
              Inl e \<Rightarrow> Inl e
            | Inr st \<Rightarrow> Inr (remove_idx st)))"

subsection \<open>The batch driver: \<open>remove_duplicate_spikes\<close>\<close>

text \<open>
  The rank of every spike's cluster among the cluster ids present
  (\<open>good_templates_idx = np.unique(spike_clusters)\<close>): the index used for the
  peak-channel lookup.
\<close>

definition spike_clusters_flat :: "int list \<Rightarrow> int list" where
  "spike_clusters_flat spike_clusters =
     (let good_templates_idx = sort (remdups spike_clusters)
      in map (\<lambda>c. int (length (filter (\<lambda>g. g < c) good_templates_idx))) spike_clusters)"

text \<open>
  \<open>spike_times_samples\<close> holds sample indices, which are integers. Each batch of them
  is cast to float32, \<open>spike_times_samples[start_idx:end_idx].astype(np.float32)\<close>: an
  integer of more than 24 bits is rounded to the nearest multiple of the power of two
  that leaves 24 bits, a tie going to the even multiple. \<open>excess_bits\<close> is the number
  of bits beyond 24, counted for integers of at most 64 bits, as sample indices are; they
  are far below the float32 range.
\<close>

definition excess_bits :: "int \<Rightarrow> nat" where
  "excess_bits a = length (filter (\<lambda>j. 2 ^ (24 + j) \<le> a) [0..<40])"

definition float32_of_int :: "int \<Rightarrow> int" where
  "float32_of_int x =
     (let a = \<bar>x\<bar>;
          k = excess_bits a;
          q = a div 2 ^ k;
          r = a mod 2 ^ k;
          q' = (if 2 ^ k < 2 * r \<or> (2 * r = 2 ^ k \<and> odd q) then q + 1 else q)
      in sgn x * (q' * 2 ^ k))"

definition astype_float32 :: "int list \<Rightarrow> real list" where
  "astype_float32 xs = map (\<lambda>x. real_of_int (float32_of_int x)) xs"

text \<open>
  One pass of the loop over the batches: the batch from \<open>start_idx\<close> to
  \<open>min(start_idx + batch_size, num_spikes_full)\<close> is resolved and its mask overwrites
  that range of \<open>duplicate_spike_idx\<close>.
\<close>

definition batch_size :: nat where "batch_size = 10000"

definition overlap_size :: nat where "overlap_size = 100"

fun batch_loop ::
  "int list \<Rightarrow> int list \<Rightarrow> real list \<Rightarrow> int list \<Rightarrow> int list \<Rightarrow> real \<Rightarrow> nat list \<Rightarrow>
   bool list \<Rightarrow> py_error + bool list" where
  "batch_loop ts cl am fl pc w [] duplicate_spike_idx = Inr duplicate_spike_idx"
| "batch_loop ts cl am fl pc w (start_idx # rest) duplicate_spike_idx =
     (let end_idx = min (start_idx + batch_size) (length ts)
      in case remove_duplicates (astype_float32 (py_slice ts start_idx end_idx))
                (py_slice cl start_idx end_idx)
                (py_slice am start_idx end_idx) (py_slice fl start_idx end_idx) pc w of
           Inl e \<Rightarrow> Inl e
         | Inr batch_remove_idx \<Rightarrow>
             batch_loop ts cl am fl pc w rest
               (take start_idx duplicate_spike_idx @ batch_remove_idx
                  @ drop end_idx duplicate_spike_idx))"

text \<open>
  The pruned arrays are indexed with \<open>np.argwhere(duplicate_spike_idx == 0)\<close>, an array
  of shape \<open>(k, 1)\<close>, so each of them has shape \<open>(k, 1)\<close>: a column, kept here as the list
  of its one-entry rows. \<open>np.squeeze\<close> turns a column of more than one row back into a
  one-dimensional array. The function itself takes one-dimensional arrays; called on the
  columns it returns, it raises, because \<open>np.bincount\<close> refuses the two-dimensional batch
  of cluster ids.
\<close>

definition as_column :: "'a list \<Rightarrow> 'a list list" where
  "as_column xs = map (\<lambda>x. [x]) xs"

definition np_squeeze :: "'a list list \<Rightarrow> 'a list" where
  "np_squeeze rows = concat rows"

record pruned_spikes =
  non_empty_units :: "int list"
  duplicate_spike_idx :: "bool list"
  spike_times_samples :: "int list list"
  spike_clusters :: "int list list"
  template_amplitudes :: "real list list"

text \<open>
  \<open>remove_duplicate_spikes\<close> with \<open>param["remove_duplicate_spike"]\<close> set. The test
  \<open>param["recompute_duplicate_spike"] or ~os.path.isdir(...)\<close> is always true (\<open>~\<close> of
  a Python truth value is \<open>-1\<close> or \<open>-2\<close>), so the mask is always recomputed and no file
  is read. The optional arrays (PC features, raw waveforms, signal-to-noise ratio) are
  left out. The start indices are \<open>np.arange(num_spikes_full / 9900, dtype=int32) * 9900\<close>.
  An empty spike train makes \<open>max(good_templates_idx)\<close> raise.
\<close>

definition remove_duplicate_spikes ::
  "int list \<Rightarrow> int list \<Rightarrow> real list \<Rightarrow> int list \<Rightarrow> real \<Rightarrow> py_error + pruned_spikes" where
  "remove_duplicate_spikes ts cl am peak_channels duplicate_spike_window_samples =
     (let num_spikes_full = length ts
      in if cl = [] then Inl ValueError
         else if list_ex (\<lambda>c. c < 0) cl then Inl ValueError
         else
           (case batch_loop ts cl am (spike_clusters_flat cl) peak_channels
                   duplicate_spike_window_samples
                   (map (\<lambda>b. b * (batch_size - overlap_size))
                      [0..<(num_spikes_full + (batch_size - overlap_size) - 1)
                             div (batch_size - overlap_size)])
                   (replicate num_spikes_full False) of
              Inl e \<Rightarrow> Inl e
            | Inr dup_mask \<Rightarrow>
                if \<not> (length cl = num_spikes_full \<and> length am = num_spikes_full)
                then Inl IndexError
                else Inr
                  \<lparr> non_empty_units =
                      sort (remdups (map fst (filter (\<lambda>(c, m). \<not> m) (zip cl dup_mask)))),
                    duplicate_spike_idx = dup_mask,
                    spike_times_samples =
                      as_column (map fst (filter (\<lambda>(t, m). \<not> m) (zip ts dup_mask))),
                    spike_clusters =
                      as_column (map fst (filter (\<lambda>(c, m). \<not> m) (zip cl dup_mask))),
                    template_amplitudes =
                      as_column (map fst (filter (\<lambda>(a, m). \<not> m) (zip am dup_mask))) \<rparr>))"

text \<open>
  A batch of 26 spikes on three units with peak channels 5, 5 and 9. The first two
  spikes, of unit 0 and of unit 1, have the same time; unit 0 has this one spike, unit 1
  has a second spike at the end of the batch, and the 23 spikes of unit 2 are 1000
  samples apart.
\<close>

definition inter_unit_times :: "real list" where
  "inter_unit_times = [0, 0] @ map (\<lambda>k. 1000 * real k) [2..<26]"

definition inter_unit_clusters :: "int list" where
  "inter_unit_clusters = [0, 1] @ replicate 23 2 @ [1]"

subsection \<open>Duplicates, loop states and survivors\<close>

text \<open>
  Two spikes of a batch are duplicates of each other when the peak channels looked up for
  them agree and their times differ by at most the window.
\<close>

definition duplicate_pair ::
  "real list \<Rightarrow> int list \<Rightarrow> int list \<Rightarrow> real \<Rightarrow> nat \<Rightarrow> nat \<Rightarrow> bool" where
  "duplicate_pair ts fl peak_channels w i j =
     (py_get peak_channels (fl ! i) = py_get peak_channels (fl ! j)
      \<and> \<bar>ts ! i - ts ! j\<bar> \<le> w)"

text \<open>
  The state of the two loops agrees with the batch: a marked spike has time NaN and an
  unmarked spike has its own time.
\<close>

definition state_agrees :: "real list \<Rightarrow> dup_state \<Rightarrow> bool" where
  "state_agrees ts st =
     (length (batch_spike_times_samples st) = length ts
      \<and> length (remove_idx st) = length ts
      \<and> list_all (\<lambda>j. batch_spike_times_samples st ! j
                          = (if remove_idx st ! j then None else Some (ts ! j)))
           [0..<length ts])"

text \<open>A later state keeps every mark of an earlier one.\<close>

definition marks_kept :: "dup_state \<Rightarrow> dup_state \<Rightarrow> bool" where
  "marks_kept st st' =
     list_all (\<lambda>j. remove_idx st' ! j \<or> \<not> remove_idx st ! j) [0..<length (remove_idx st)]"

text \<open>
  A pair of spikes is settled in a state when one of the two is marked or the two are
  not duplicates of each other.
\<close>

definition pair_settled ::
  "real list \<Rightarrow> int list \<Rightarrow> int list \<Rightarrow> real \<Rightarrow> dup_state \<Rightarrow> nat \<Rightarrow> nat \<Rightarrow> bool" where
  "pair_settled ts fl pc w st i j =
     (remove_idx st ! i \<or> remove_idx st ! j \<or> \<not> duplicate_pair ts fl pc w i j)"

text \<open>The entries of an array that a removal mask leaves: \<open>xs[mask == 0]\<close>.\<close>

definition unmarked :: "'a list \<Rightarrow> bool list \<Rightarrow> 'a list" where
  "unmarked xs m = map fst (filter (\<lambda>(x, b). \<not> b) (zip xs m))"

text \<open>
  A train of \<open>n\<close> spikes of a single unit with peak channel 5: the first two spikes
  have the same time and amplitudes 1 and 2, the others are 1000 samples apart.
\<close>

definition lone_unit_times :: "nat \<Rightarrow> int list" where
  "lone_unit_times n = [0, 0] @ map (\<lambda>k. 1000 * int k) [2..<n]"

definition lone_unit_amplitudes :: "nat \<Rightarrow> real list" where
  "lone_unit_amplitudes n = [1, 2] @ replicate (n - 2) 1"

section \<open>Properties\<close>

subsection \<open>Classifier\<close>

lemma noise_mask_n_peaks:
  "np_gt (n_peaks q) (max_n_peaks p) \<Longrightarrow> noise_mask p q"
  by (simp add: noise_mask_def Let_def)

lemma noise_unit_type_code: "noise_mask p q \<Longrightarrow> unit_type_code p q = 0"
  by (simp add: unit_type_code_def mua_mask_def Let_def)

text \<open>
  Claim C3. A unit whose \<open>n_peaks\<close> exceeds \<open>max_n_peaks\<close> gets unit type 0 and the
  label NOISE from \<open>get_quality_unit_type\<close>, whatever its other metrics and whatever
  the other parameters are.
\<close>

theorem noise_rule_takes_precedence:
  assumes "i < length qs"
    and "np_gt (n_peaks (qs ! i)) (max_n_peaks p)"
  shows "fst (get_quality_unit_type p qs) ! i = 0
       \<and> snd (get_quality_unit_type p qs) ! i = ''NOISE''"
proof -
  have "unit_type_code p (qs ! i) = 0"
    using assms(2) by (intro noise_unit_type_code noise_mask_n_peaks)
  with assms(1) show ?thesis
    by (simp add: get_quality_unit_type_def Let_def unit_type_label_def)
qed

theorem noise_rule_takes_precedence_witness:
  "0 < length [example_unit\<lparr>n_peaks := Fin 3, fraction_RPVs := Fin 1\<rparr>]
   \<and> np_gt (n_peaks ([example_unit\<lparr>n_peaks := Fin 3, fraction_RPVs := Fin 1\<rparr>] ! 0))
        (max_n_peaks example_param)
   \<and> fst (get_quality_unit_type example_param
        [example_unit\<lparr>n_peaks := Fin 3, fraction_RPVs := Fin 1\<rparr>]) ! 0 = 0
   \<and> snd (get_quality_unit_type example_param
        [example_unit\<lparr>n_peaks := Fin 3, fraction_RPVs := Fin 1\<rparr>]) ! 0 = ''NOISE''"
  using noise_rule_takes_precedence
    [of 0 "[example_unit\<lparr>n_peaks := Fin 3, fraction_RPVs := Fin 1\<rparr>]" example_param]
  by (simp add: example_unit_def example_param_def np_gt_def)

text \<open>
  Claim C4. With distance metrics enabled, a unit that is not noise, passes every other
  MUA rule and has isolation distance 10 below the threshold \<open>iso_d_min = 20\<close> is
  classified GOOD (type 1), not MUA: the rule compares \<open>isolation_dist > iso_d_min\<close>.
\<close>

theorem low_isolation_distance_classified_good:
  "compute_distance_metrics example_param
   \<and> \<not> noise_mask example_param example_unit
   \<and> np_lt (isolation_dist example_unit) (iso_d_min example_param)
   \<and> get_quality_unit_type example_param [example_unit] = ([1], [''GOOD''])"
  by (simp add: get_quality_unit_type_def unit_type_code_def unit_type_label_def
      noise_mask_def mua_mask_def is_non_somatic_def np_gt_def Let_def
      example_unit_def example_param_def)

subsection \<open>Good-time-chunk selector\<close>

text \<open>
  Claim C5. A recording of two chunks with edges 0, 10, 20, both chunks good (missing
  percentage 0 and RPV fraction 0 under thresholds 20 and 1/10): the selected span is
  0 to 10, the start of the last chunk, not 0 to 20.
\<close>

theorem all_chunks_good_span_stops_at_last_chunk_start:
  "good_chunk_idx [Fin 0, Fin 0] [Fin 0, Fin 0] (Fin 20) (Fin (1/10)) = Inr [0, 1]
   \<and> time_chunks_to_keep [Fin 0, Fin 0] [[Fin 0, Fin 0]] [0, 10, 20] [1, 12] [5, 6]
        [7, 7] [1, 12] \<lparr>max_RPV_c = Fin (1/10), max_perc_spikes_missing_c = Fin 20\<rparr>
      = Inr \<lparr> these_spike_times_k = [1], these_amplitudes_k = [5],
              these_spike_clusters_k = [7, - 1],
              use_this_time_start = 0, use_this_time_end = 10, use_tauR = 0 \<rparr>"
  by (simp add: time_chunks_to_keep_def good_chunk_idx_def select_times_def np_argmax_def
      np_sum_def np_diff_def py_slice_def py_first_def py_last_def np_gt_def Let_def
      upt_rec)

text \<open>
  In general, when the good chunks are the \<open>n \<ge> 2\<close> chunks 0 to \<open>n - 1\<close>, the
  selected edges are the first \<open>n\<close> edges, so the span ends at the start of chunk
  \<open>n - 1\<close>; when a single chunk \<open>i\<close> is good, the selected edges are the two edges of
  that chunk.
\<close>

lemma np_diff_consecutive: "np_diff (map int [0..<n]) = replicate (n - 1) 1"
proof (rule nth_equalityI)
  show "length (np_diff (map int [0..<n])) = length (replicate (n - 1) (1::int))"
    by (simp add: np_diff_def)
next
  fix k assume "k < length (np_diff (map int [0..<n]))"
  then have k: "k < n - 1" by (simp add: np_diff_def)
  then have "np_diff (map int [0..<n]) ! k = int (Suc k) - int k"
    by (simp add: np_diff_def nth_tl)
  then show "np_diff (map int [0..<n]) ! k = replicate (n - 1) 1 ! k" using k by simp
qed

lemma all_good_chunks_span:
  assumes "2 \<le> n"
  shows "select_times time_chunks [0..<n] = Inr (take n time_chunks)"
proof -
  let ?ct = "replicate (n - 1) (1::int)"
  have ex: "list_ex (\<lambda>d. d = 1) ?ct" using assms by (simp add: list_ex_iff)
  have gaps: "filter (\<lambda>j. 1 < ?ct ! j) [0..<length ?ct] = []"
    by (simp add: filter_empty_conv)
  have am: "np_argmax [x] = Inr 0" for x
    by (simp add: np_argmax_def)
  have first: "[0..<n] ! 0 = 0" and last: "[0..<n] ! (n - 1) = n - 1"
    using assms by simp_all
  have pos: "0 < n" "\<not> n \<le> n - 1" using assms by simp_all
  show ?thesis
    unfolding select_times_def np_diff_consecutive
    using ex pos by (simp add: Let_def gaps am first last py_slice_def)
qed

lemma single_good_chunk_span:
  assumes "i + 1 < length time_chunks"
  shows "select_times time_chunks [i] = Inr [time_chunks ! i, time_chunks ! (i + 1)]"
proof -
  have "drop i (take (i + 2) time_chunks) = [time_chunks ! i, time_chunks ! (i + 1)]"
  proof (rule nth_equalityI)
    show "length (drop i (take (i + 2) time_chunks))
          = length [time_chunks ! i, time_chunks ! (i + 1)]"
      using assms by simp
  next
    fix k assume "k < length (drop i (take (i + 2) time_chunks))"
    then have "k < 2" using assms by simp
    then have "k = 0 \<or> k = 1" by linarith
    then show "drop i (take (i + 2) time_chunks) ! k
               = [time_chunks ! i, time_chunks ! (i + 1)] ! k"
      using assms by auto
  qed
  then show ?thesis by (simp add: select_times_def np_diff_def py_slice_def)
qed

subsection \<open>Drift estimator\<close>

text \<open>
  Claim C9. A unit with two spikes, at 0 s and at 1 s, and the bin width 60 s: the
  lifetime 1 s is shorter than 120 s, the width becomes 1/2 s, \<open>time_bins\<close> has the two
  edges 0 and 1/2, and the median depth is computed over the single bin from 0 to 1/2.
\<close>

theorem short_lived_unit_has_one_drift_bin:
  "drift_bin_size_used 0 1 60 = 1 / 2
   \<and> drift_time_bins [0, 1] 60 = Inr [0, 1 / 2]
   \<and> median_spike_depth [Fin 3, Fin 5] [0, 1] 60 = Inr [Fin 3]
   \<and> max_drift_estimate [Fin 3, Fin 5] [0, 1] 60 = Inr (Fin 0, 0)"
  by (simp add: max_drift_estimate_def median_spike_depth_def drift_time_bins_def
      drift_bin_size_used_def np_arange_def np_min_def np_max_def np_nanmedian_def
      finite_values_def np_diff_def Let_def upt_rec)

text \<open>
  In general, a unit with a positive lifetime shorter than twice the bin width gets two
  bin edges, hence one bin, which covers the first half of its lifetime.
\<close>

lemma halved_bin_gives_two_edges:
  assumes "t_min < t_max" and "t_max - t_min < 2 * b"
  shows "np_arange t_min t_max (drift_bin_size_used t_min t_max b)
         = Inr [t_min, t_min + (t_max - t_min) / 2]"
proof -
  define s where "s = (t_max - t_min) / 2"
  have w: "drift_bin_size_used t_min t_max b = s"
    using assms(2) by (simp add: drift_bin_size_used_def s_def)
  have s0: "s \<noteq> 0" using assms(1) by (simp add: s_def)
  have q: "(t_max - t_min) / s = 2" using assms(1) by (simp add: s_def field_simps)
  have "np_arange t_min t_max s
        = Inr (map (\<lambda>i. t_min + real i * s) [0..<nat \<lceil>(t_max - t_min) / s\<rceil>])"
    using s0 by (simp only: np_arange_def if_False)
  also have "\<dots> = Inr (map (\<lambda>i. t_min + real i * s) [0..<2])"
    by (simp only: q) simp
  also have "\<dots> = Inr [t_min, t_min + s]" by (simp add: upt_rec)
  finally show ?thesis by (simp add: w s_def)
qed

subsection \<open>Presence ratio\<close>

lemma np_percentile_all_zero:
  assumes "xs \<noteq> []" and "\<forall>x\<in>set xs. x = 0"
  shows "np_percentile xs 90 = Inr 0"
proof -
  let ?s = "sort xs"
  let ?n = "length ?s"
  let ?v = "real (?n - 1) * 90 / 100"
  have n: "0 < ?n" using assms(1) by simp
  have z: "\<And>i. i < ?n \<Longrightarrow> ?s ! i = 0"
  proof -
    fix i assume "i < ?n"
    then have "?s ! i \<in> set ?s" by (rule nth_mem)
    then show "?s ! i = 0" using assms(2) by simp
  qed
  have v0: "0 \<le> ?v" by simp
  have "?v \<le> real (?n - 1)" by simp
  then have "\<lfloor>?v\<rfloor> \<le> int (?n - 1)" by linarith
  then have p: "nat \<lfloor>?v\<rfloor> < ?n" using n by linarith
  have "min (nat \<lfloor>?v\<rfloor> + 1) (?n - 1) \<le> ?n - 1" by (rule min.cobounded2)
  then have q: "min (nat \<lfloor>?v\<rfloor> + 1) (?n - 1) < ?n" using n by linarith
  show ?thesis
    using assms(1) z[OF p] z[OF q] by (simp add: np_percentile_def Let_def)
qed

lemma full_bins_sum_bounds:
  "0 \<le> sum_list (full_bins spb p) \<and> sum_list (full_bins spb p) \<le> real (length spb)"
  by (induction spb) (auto simp: full_bins_def)

lemma full_bins_all_zero:
  "\<forall>c\<in>set spb. c = 0 \<Longrightarrow> sum_list (full_bins spb 0) = real (length spb)"
  by (induction spb) (auto simp: full_bins_def)

lemma length_full_bins: "length (full_bins spb p) = length spb"
  by (simp add: full_bins_def)

lemma arange_two_edges:
  assumes "bin \<noteq> 0" and "1 < (t_end - t_start) / bin"
  shows "\<exists>bins. np_arange t_start t_end bin = Inr bins \<and> 2 \<le> length bins"
proof -
  have "2 \<le> \<lceil>(t_end - t_start) / bin\<rceil>" using assms(2) by linarith
  then have "2 \<le> nat \<lceil>(t_end - t_start) / bin\<rceil>" by linarith
  then show ?thesis using assms(1) by (simp add: np_arange_def)
qed

text \<open>
  Claim C10, as amended. When the selected span yields at least two bin edges (the bin
  size is not zero and the span is longer than one bin), \<open>presence_ratio\<close> returns a
  value between 0 and 1, and the value is 1 when no bin holds a spike: the threshold is
  then 0 and every bin counts as active.
\<close>

theorem presence_ratio_amended:
  assumes "bin \<noteq> 0" and "1 < (t_end - t_start) / bin"
  shows "\<exists>bins r. np_arange t_start t_end bin = Inr bins
           \<and> presence_ratio ts t_start t_end bin = Inr r
           \<and> 0 \<le> r \<and> r \<le> 1
           \<and> ((\<forall>c\<in>set (spikes_per_bin ts bins). c = 0) \<longrightarrow> r = 1)"
proof -
  obtain bins where b: "np_arange t_start t_end bin = Inr bins" and l: "2 \<le> length bins"
    using arange_two_edges[OF assms] by blast
  let ?spb = "spikes_per_bin ts bins"
  have len: "length ?spb = length bins - 1" by (simp add: spikes_per_bin_def)
  then have ne: "?spb \<noteq> []" using l by auto
  obtain p90 where p: "np_percentile ?spb 90 = Inr p90"
    using ne by (auto simp: np_percentile_def Let_def)
  let ?r = "sum_list (full_bins ?spb p90) / real (length (full_bins ?spb p90))"
  have r: "presence_ratio ts t_start t_end bin = Inr ?r"
    using b p by (simp add: presence_ratio_def Let_def)
  have pos: "0 < real (length ?spb)" using ne by simp
  have r0: "0 \<le> ?r" using full_bins_sum_bounds[of ?spb p90] by (simp add: length_full_bins)
  have r1: "?r \<le> 1"
    using full_bins_sum_bounds[of ?spb p90] pos by (simp add: length_full_bins)
  have rz: "(\<forall>c\<in>set ?spb. c = 0) \<longrightarrow> ?r = 1"
  proof
    assume a: "\<forall>c\<in>set ?spb. c = 0"
    have "p90 = 0" using np_percentile_all_zero[OF ne a] p by simp
    then show "?r = 1" using full_bins_all_zero[OF a] pos by (simp add: length_full_bins)
  qed
  show ?thesis using b r r0 r1 rz by blast
qed

theorem presence_ratio_amended_witness:
  "(60::real) \<noteq> 0 \<and> 1 < (180 - 0) / (60::real)
   \<and> np_arange 0 180 60 = Inr [0, 60, 120]
   \<and> spikes_per_bin [] [0, 60, 120] = [0, 0]
   \<and> presence_ratio [] 0 180 60 = Inr 1"
proof -
  have a: "np_arange 0 180 60 = Inr [0, 60, 120]"
    by (simp add: np_arange_def upt_rec)
  have s: "spikes_per_bin [] [0, 60, 120] = [0, 0]"
    by (simp add: spikes_per_bin_def upt_rec)
  from presence_ratio_amended[of 60 180 0 "[]"] a s
  have "presence_ratio [] 0 180 60 = Inr 1" by auto
  with a s show ?thesis by simp
qed

text \<open>
  The claim as stated fails on a span of exactly one bin size: \<open>np.arange(0, 60, 60)\<close>
  has the single edge 0, there is no bin, and the percentile of the empty count array
  raises instead of giving a ratio.
\<close>

theorem presence_ratio_no_bin_counterexample:
  "spikes_per_bin [] [0] = [] \<and> presence_ratio [] 0 60 60 = Inl IndexError"
  by (simp add: presence_ratio_def np_arange_def spikes_per_bin_def np_percentile_def
      Let_def upt_rec)

text \<open>
  In general, a span of at most one bin size yields no bin, and \<open>presence_ratio\<close>
  raises instead of returning a ratio.
\<close>

lemma presence_ratio_no_bin:
  assumes "(t_end - t_start) / bin \<le> 1"
  shows "\<exists>e. presence_ratio ts t_start t_end bin = Inl e"
proof (cases "bin = 0")
  case True
  then show ?thesis by (simp add: presence_ratio_def np_arange_def)
next
  case False
  have "\<lceil>(t_end - t_start) / bin\<rceil> \<le> 1" using assms by (simp add: ceiling_le_iff)
  then have n: "nat \<lceil>(t_end - t_start) / bin\<rceil> - 1 = 0" by linarith
  have "np_arange t_start t_end bin
        = Inr (map (\<lambda>i. t_start + real i * bin) [0..<nat \<lceil>(t_end - t_start) / bin\<rceil>])"
    using False by (simp add: np_arange_def)
  then have "presence_ratio ts t_start t_end bin = Inl IndexError"
    using n by (simp add: presence_ratio_def spikes_per_bin_def np_percentile_def Let_def)
  then show ?thesis by blast
qed

subsection \<open>Waveform shape\<close>

text \<open>
  Claim C7. If a sample of the unit's peak-channel waveform is NaN, \<open>waveform_shape\<close>
  returns NaN for all eleven shape metrics, without analysing the waveform.
\<close>

theorem nan_waveform_gives_nan_metrics:
  assumes "this_waveform template_waveforms this_unit peak_channels = Inr w"
    and "list_ex np_isnan w"
  shows "waveform_shape analyse template_waveforms this_unit peak_channels
         = Inr nan_waveform_metrics"
  using assms by (simp add: waveform_shape_def)

theorem nan_waveform_gives_nan_metrics_witness:
  "this_waveform [[[Fin 1, Fin 0], [NaN, Fin 2], [Fin 3, Fin 1]]] 0 [0]
     = Inr [Fin 1, NaN, Fin 3]
   \<and> list_ex np_isnan [Fin 1, NaN, Fin 3]
   \<and> waveform_shape (\<lambda>w. Inl ValueError) [[[Fin 1, Fin 0], [NaN, Fin 2], [Fin 3, Fin 1]]] 0 [0]
     = Inr nan_waveform_metrics"
proof -
  have w: "this_waveform [[[Fin 1, Fin 0], [NaN, Fin 2], [Fin 3, Fin 1]]] 0 [0]
             = Inr [Fin 1, NaN, Fin 3]"
    by (simp add: this_waveform_def py_get_def)
  have n: "list_ex np_isnan [Fin 1, NaN, Fin 3]" by simp
  show ?thesis
    using w n nan_waveform_gives_nan_metrics [OF w n, of "\<lambda>w. Inl ValueError"] by simp
qed

subsection \<open>Missing-spike estimator\<close>

lemma sum_list_indicator_upt:
  "k < n \<Longrightarrow> sum_list (map (\<lambda>b. if k = b then 1 else 0) [0..<n]) = (1::nat)"
  by (induction n) auto

lemma sum_list_indicator_upt_out:
  "n \<le> k \<Longrightarrow> sum_list (map (\<lambda>b. if k = b then 1 else 0) [0..<n]) = (0::nat)"
  by (induction n) auto

lemma histogram_counts_partition:
  "\<forall>x\<in>set xs. f x < n \<Longrightarrow>
   sum_list (map (\<lambda>b. length (filter (\<lambda>x. f x = b) xs)) [0..<n]) = length xs"
proof (induction xs)
  case Nil
  then show ?case by (induction n) auto
next
  case (Cons a xs)
  have "sum_list (map (\<lambda>b. length (filter (\<lambda>x. f x = b) (a # xs))) [0..<n])
        = sum_list (map (\<lambda>b. (if f a = b then 1 else 0)
                            + length (filter (\<lambda>x. f x = b) xs)) [0..<n])"
    by (intro arg_cong[where f = sum_list] map_cong) auto
  also have "\<dots> = sum_list (map (\<lambda>b. if f a = b then 1 else 0) [0..<n])
                  + sum_list (map (\<lambda>b. length (filter (\<lambda>x. f x = b) xs)) [0..<n])"
    by (simp add: sum_list_addf)
  also have "\<dots> = 1 + length xs"
    using Cons sum_list_indicator_upt[of "f a" n] by simp
  finally show ?case by simp
qed

lemma np_histogram_counts_total:
  "sum_list (fst (np_histogram a 50)) = length a"
  unfolding np_histogram_def Let_def fst_conv
  by (rule histogram_counts_partition) (simp add: min_less_iff_disj)

lemma few_spikes_chunk_nan:
  assumes "length here \<le> 5"
  shows "perc_spikes_missing_chunk estimate here = Inr (NaN, NaN)"
proof (cases "here = []")
  case True
  then show ?thesis by (simp add: perc_spikes_missing_chunk_def)
next
  case False
  obtain q1 where q1: "np_percentile here 1 = Inr q1"
    using False by (simp add: np_percentile_def Let_def)
  obtain q99 where q99: "np_percentile here 99 = Inr q99"
    using False by (simp add: np_percentile_def Let_def)
  have k: "length (filter P here) \<le> 5" for P
    using length_filter_le[of P here] assms by linarith
  have "\<not> 5 < sum_list (fst (np_histogram (filter P here) 50))" for P
    using k[of P] by (simp add: np_histogram_counts_total)
  then show ?thesis
    using False q1 q99 by (simp add: perc_spikes_missing_chunk_def Let_def)
qed

lemma sequence_results_nth:
  "sequence_results xs = Inr vs \<Longrightarrow> i < length xs \<Longrightarrow> xs ! i = Inr (vs ! i)"
proof (induction xs arbitrary: vs i)
  case Nil
  then show ?case by simp
next
  case (Cons x xs)
  then show ?case by (cases i) (auto split: sum.splits)
qed

lemma sequence_results_length:
  "sequence_results xs = Inr vs \<Longrightarrow> length vs = length xs"
  by (induction xs arbitrary: vs) (auto split: sum.splits)

text \<open>
  Claim C6. A time chunk holding at most 5 spikes (none included) gets NaN for both the
  Gaussian and the symmetric estimate: the pass of the loop over that chunk returns the
  pair (NaN, NaN) without calling the estimators, and whenever \<open>perc_spikes_missing\<close> as
  a whole returns its two arrays, both have NaN at that chunk.
\<close>

theorem few_spikes_in_chunk_give_nan:
  assumes "i < length time_chunks - 1"
    and "amplitudes_in_chunk these_amplitudes these_spike_times
           (time_chunks ! i) (time_chunks ! (i + 1)) = Inr here"
    and "length here \<le> 5"
  shows "perc_spikes_missing_chunk estimate here = Inr (NaN, NaN)
       \<and> (perc_spikes_missing estimate these_amplitudes these_spike_times time_chunks
            = Inr (gaussian, symmetric)
          \<longrightarrow> gaussian ! i = NaN \<and> symmetric ! i = NaN)"
proof
  show c: "perc_spikes_missing_chunk estimate here = Inr (NaN, NaN)"
    using assms(3) by (rule few_spikes_chunk_nan)
  show "perc_spikes_missing estimate these_amplitudes these_spike_times time_chunks
          = Inr (gaussian, symmetric)
        \<longrightarrow> gaussian ! i = NaN \<and> symmetric ! i = NaN"
  proof
    let ?f = "\<lambda>i. case amplitudes_in_chunk these_amplitudes these_spike_times
                          (time_chunks ! i) (time_chunks ! (i + 1)) of
                     Inl e \<Rightarrow> Inl e
                   | Inr here \<Rightarrow> perc_spikes_missing_chunk estimate here"
    let ?xs = "map ?f [0..<length time_chunks - 1]"
    assume r: "perc_spikes_missing estimate these_amplitudes these_spike_times time_chunks
                 = Inr (gaussian, symmetric)"
    then obtain rs where rs: "sequence_results ?xs = Inr rs"
      and g: "gaussian = map fst rs" and s: "symmetric = map snd rs"
      by (auto simp: perc_spikes_missing_def split: if_splits sum.splits)
    have li: "i < length ?xs" using assms(1) by simp
    have "?xs ! i = Inr (rs ! i)" using sequence_results_nth[OF rs li] .
    moreover have "?xs ! i = Inr (NaN, NaN)" using assms(1,2) c by simp
    ultimately have e: "rs ! i = (NaN, NaN)" by simp
    have "length rs = length ?xs" using rs by (rule sequence_results_length)
    then have "i < length rs" using li by simp
    then show "gaussian ! i = NaN \<and> symmetric ! i = NaN" using e g s by simp
  qed
qed

theorem few_spikes_in_chunk_give_nan_witness:
  "0 < length [0, 10::real] - 1
   \<and> amplitudes_in_chunk [4, 5, 6] [1, 2, 3] ([0, 10] ! 0) ([0, 10] ! (0 + 1)) = Inr [4, 5, 6]
   \<and> length [4, 5, 6::real] \<le> 5
   \<and> perc_spikes_missing_chunk (\<lambda>kept counts bins. Inl ValueError) [4, 5, 6] = Inr (NaN, NaN)
   \<and> perc_spikes_missing (\<lambda>kept counts bins. Inl ValueError) [4, 5, 6] [1, 2, 3] [0, 10]
     = Inr ([NaN], [NaN])"
proof -
  have i: "0 < length [0, 10::real] - 1" by simp
  have a: "amplitudes_in_chunk [4, 5, 6] [1, 2, 3] ([0, 10] ! 0) ([0, 10] ! (0 + 1))
             = Inr [4, 5, 6]"
    by (simp add: amplitudes_in_chunk_def)
  have l: "length [4, 5, 6::real] \<le> 5" by simp
  have c: "perc_spikes_missing_chunk (\<lambda>kept counts bins. Inl ValueError) [4, 5, 6]
             = Inr (NaN, NaN)"
    using few_spikes_in_chunk_give_nan [OF i a l] by simp
  have a': "amplitudes_in_chunk [4, 5, 6] [1, 2, 3] 0 10 = Inr [4, 5, 6]"
    using a by simp
  have "perc_spikes_missing (\<lambda>kept counts bins. Inl ValueError) [4, 5, 6] [1, 2, 3] [0, 10]
          = Inr ([NaN], [NaN])"
    by (simp add: perc_spikes_missing_def a' c upt_rec)
  with i a l c show ?thesis by simp
qed

subsection \<open>RPV estimator\<close>
















subsection \<open>Duplicate spike resolver\<close>

lemma inter_unit_batch_mask:
  "remove_duplicates inter_unit_times inter_unit_clusters (replicate 26 1)
     (spike_clusters_flat inter_unit_clusters) [5, 5, 9] 1
   = Inr (True # replicate 25 False)"
  by code_simp

text \<open>
  Claim C1. In the batch above the spikes 0 (unit 0, one spike in the batch) and 1
  (unit 1, two spikes in the batch) form an inter-unit duplicate pair: same peak channel,
  same time. The resolver marks spike 0, the spike of the unit with fewer spikes, and
  keeps the spike of the unit with more spikes.
\<close>

theorem inter_unit_pair_removes_rarer_unit:
  "count_list inter_unit_clusters (inter_unit_clusters ! 0) = 1
   \<and> count_list inter_unit_clusters (inter_unit_clusters ! 1) = 2
   \<and> remove_duplicates inter_unit_times inter_unit_clusters (replicate 26 1)
        (spike_clusters_flat inter_unit_clusters) [5, 5, 9] 1
      = Inr (True # replicate 25 False)"
  using inter_unit_batch_mask by (simp add: inter_unit_clusters_def)

lemma state_agrees_iff:
  "state_agrees ts st \<longleftrightarrow>
     length (batch_spike_times_samples st) = length ts
     \<and> length (remove_idx st) = length ts
     \<and> (\<forall>j<length ts. batch_spike_times_samples st ! j
                          = (if remove_idx st ! j then None else Some (ts ! j)))"
  by (auto simp: state_agrees_def list_all_iff)

lemma marks_kept_iff:
  "marks_kept st st' \<longleftrightarrow>
     (\<forall>j<length (remove_idx st). remove_idx st ! j \<longrightarrow> remove_idx st' ! j)"
  by (auto simp: marks_kept_def list_all_iff)

lemma marks_kept_refl: "marks_kept st st"
  by (simp add: marks_kept_iff)

lemma marks_kept_trans:
  "marks_kept a b \<Longrightarrow> marks_kept b c \<Longrightarrow> length (remove_idx b) = length (remove_idx a)
   \<Longrightarrow> marks_kept a c"
  by (simp add: marks_kept_iff)

lemma duplicate_pair_sym:
  "duplicate_pair ts fl pc w i j = duplicate_pair ts fl pc w j i"
  by (auto simp: duplicate_pair_def abs_minus_commute)

lemma py_index_less: "py_index n idx = Some j \<Longrightarrow> j < n"
  by (auto simp: py_index_def split: if_splits)

lemma mark_removed_agrees:
  assumes "state_agrees ts st" and "j < length ts"
  shows "state_agrees ts (mark_removed st j)"
    and "marks_kept st (mark_removed st j)"
    and "remove_idx (mark_removed st j) ! j"
    and "length (remove_idx (mark_removed st j)) = length (remove_idx st)"
  using assms
  by (auto simp: state_agrees_iff marks_kept_iff mark_removed_def nth_list_update)

lemma within_window_agrees:
  assumes "state_agrees ts st" and "i < length ts" and "j < length ts"
  shows "within_window (batch_spike_times_samples st ! i) (batch_spike_times_samples st ! j) w
         = (\<not> remove_idx st ! i \<and> \<not> remove_idx st ! j \<and> \<bar>ts ! i - ts ! j\<bar> \<le> w)"
  using assms by (auto simp: state_agrees_iff within_window_def)

lemma compare_pair_post:
  assumes ag: "state_agrees ts st" and i: "i < length ts"
    and run: "compare_pair cl am fl pc w i idx2 st = Inr st'"
  shows "state_agrees ts st' \<and> marks_kept st st'
         \<and> length (remove_idx st') = length (remove_idx st)
         \<and> (\<forall>j. int i \<noteq> idx2 \<and> py_index (length ts) idx2 = Some j
                \<longrightarrow> pair_settled ts fl pc w st' i j)"
proof (cases "int i = idx2")
  case True
  then have "st' = st" using run by (simp add: compare_pair_def)
  then show ?thesis using ag True by (simp add: marks_kept_refl)
next
  case ne: False
  have len: "length (remove_idx st) = length ts" using ag by (simp add: state_agrees_iff)
  from run ne obtain j where pj: "py_index (length ts) idx2 = Some j"
    by (auto simp: compare_pair_def len split: option.splits)
  have j: "j < length ts" using pj by (rule py_index_less)
  show ?thesis
  proof (cases "remove_idx st ! j")
    case True
    then have "st' = st" using run ne pj by (simp add: compare_pair_def len)
    then show ?thesis using ag True pj by (simp add: marks_kept_refl pair_settled_def)
  next
    case nr: False
    from run ne pj nr obtain p1 p2 where p1: "py_get pc (fl ! i) = Inr p1"
      and p2: "py_get pc (fl ! j) = Inr p2"
      by (auto simp: compare_pair_def len split: sum.splits)
    show ?thesis
    proof (cases "p1 = p2")
      case False
      then have "st' = st" using run ne pj nr p1 p2 by (simp add: compare_pair_def len)
      moreover have "\<not> duplicate_pair ts fl pc w i j"
        using False p1 p2 by (simp add: duplicate_pair_def)
      ultimately show ?thesis using ag pj by (simp add: marks_kept_refl pair_settled_def)
    next
      case same: True
      have ww: "within_window (batch_spike_times_samples st ! i)
                  (batch_spike_times_samples st ! j) w
                = (\<not> remove_idx st ! i \<and> \<bar>ts ! i - ts ! j\<bar> \<le> w)"
        using within_window_agrees[OF ag i j] nr by simp
      show ?thesis
      proof (cases "\<not> remove_idx st ! i \<and> \<bar>ts ! i - ts ! j\<bar> \<le> w")
        case False
        then have "st' = st"
          using run ne pj nr p1 p2 same ww
          by (auto simp: compare_pair_def len Let_def split: if_splits)
        moreover have "remove_idx st ! i \<or> \<not> duplicate_pair ts fl pc w i j"
          using False by (auto simp: duplicate_pair_def)
        ultimately show ?thesis using ag pj by (auto simp: marks_kept_refl pair_settled_def)
      next
        case True
        have m: "\<And>k. k < length ts \<Longrightarrow>
                   within_window (batch_spike_times_samples (mark_removed st k) ! i)
                     (batch_spike_times_samples (mark_removed st k) ! j) w
                   = (\<not> remove_idx (mark_removed st k) ! i
                      \<and> \<not> remove_idx (mark_removed st k) ! j \<and> \<bar>ts ! i - ts ! j\<bar> \<le> w)"
          using within_window_agrees[OF mark_removed_agrees(1)[OF ag] i j] by simp
        have "st' = mark_removed st i \<or> st' = mark_removed st j"
          using run ne pj nr p1 p2 same ww True
          by (auto simp: compare_pair_def len Let_def split: if_splits)
        then show ?thesis
          using mark_removed_agrees[OF ag i] mark_removed_agrees[OF ag j] pj
          by (auto simp: pair_settled_def)
      qed
    qed
  qed
qed

lemma pair_settled_kept:
  "pair_settled ts fl pc w st i j \<Longrightarrow> marks_kept st st' \<Longrightarrow> i < length (remove_idx st)
   \<Longrightarrow> j < length (remove_idx st) \<Longrightarrow> pair_settled ts fl pc w st' i j"
  by (auto simp: pair_settled_def marks_kept_iff)

lemma inner_loop_post:
  assumes "state_agrees ts st" and "i < length ts"
    and "inner_loop cl am fl pc w i js st = Inr st'"
  shows "state_agrees ts st' \<and> marks_kept st st'
         \<and> (\<forall>idx2\<in>set js. \<forall>j. int i \<noteq> idx2 \<and> py_index (length ts) idx2 = Some j
                \<longrightarrow> pair_settled ts fl pc w st' i j)"
  using assms
proof (induction js arbitrary: st)
  case Nil
  then show ?case by (simp add: marks_kept_refl)
next
  case (Cons idx2 js)
  from Cons.prems(3) obtain st1 where
    s1: "compare_pair cl am fl pc w i idx2 st = Inr st1"
    and r: "inner_loop cl am fl pc w i js st1 = Inr st'"
    by (auto split: sum.splits)
  note c = compare_pair_post[OF Cons.prems(1,2) s1]
  have a1: "state_agrees ts st1" using c by simp
  note ih = Cons.IH[OF a1 Cons.prems(2) r]
  have l: "length (remove_idx st) = length ts"
    using Cons.prems(1) by (simp add: state_agrees_iff)
  have l1: "length (remove_idx st1) = length ts" using a1 by (simp add: state_agrees_iff)
  have mk: "marks_kept st st'"
    using c ih by (auto intro: marks_kept_trans)
  have "\<forall>j. int i \<noteq> idx2 \<and> py_index (length ts) idx2 = Some j
            \<longrightarrow> pair_settled ts fl pc w st' i j"
  proof (intro allI impI)
    fix j assume h: "int i \<noteq> idx2 \<and> py_index (length ts) idx2 = Some j"
    then have "pair_settled ts fl pc w st1 i j" using c by blast
    moreover have "j < length ts" using h py_index_less by blast
    ultimately show "pair_settled ts fl pc w st' i j"
      using ih Cons.prems(2) l1 by (auto intro: pair_settled_kept)
  qed
  then show ?case using ih mk by auto
qed

lemma outer_loop_post:
  assumes "state_agrees ts st" and "\<forall>i\<in>set is. i < length ts"
    and "outer_loop cl am fl pc w is st = Inr st'"
  shows "state_agrees ts st' \<and> marks_kept st st'
         \<and> (\<forall>i\<in>set is. \<forall>idx2\<in>set (neighbour_idxs i (length ts)).
               \<forall>j. int i \<noteq> idx2 \<and> py_index (length ts) idx2 = Some j
                \<longrightarrow> pair_settled ts fl pc w st' i j)"
  using assms
proof (induction "is" arbitrary: st)
  case Nil
  then show ?case by (simp add: marks_kept_refl)
next
  case (Cons i "is")
  have i: "i < length ts" using Cons.prems(2) by simp
  have rest: "\<forall>i\<in>set is. i < length ts" using Cons.prems(2) by simp
  have l: "length (remove_idx st) = length ts"
    using Cons.prems(1) by (simp add: state_agrees_iff)
  show ?case
  proof (cases "remove_idx st ! i")
    case True
    then have r: "outer_loop cl am fl pc w is st = Inr st'" using Cons.prems(3) by simp
    note ih = Cons.IH[OF Cons.prems(1) rest r]
    have "remove_idx st' ! i" using True ih i l by (auto simp: marks_kept_iff)
    then show ?thesis using ih by (auto simp: pair_settled_def)
  next
    case False
    from Cons.prems(3) False obtain st1 where
      s1: "inner_loop cl am fl pc w i (neighbour_idxs i (length ts)) st = Inr st1"
      and r: "outer_loop cl am fl pc w is st1 = Inr st'"
      by (auto simp: l split: sum.splits)
    note c = inner_loop_post[OF Cons.prems(1) i s1]
    have a1: "state_agrees ts st1" using c by simp
    have l1: "length (remove_idx st1) = length ts" using a1 by (simp add: state_agrees_iff)
    note ih = Cons.IH[OF a1 rest r]
    have mk: "marks_kept st st'"
      using c ih l l1 by (auto intro: marks_kept_trans)
    have "\<forall>idx2\<in>set (neighbour_idxs i (length ts)).
            \<forall>j. int i \<noteq> idx2 \<and> py_index (length ts) idx2 = Some j
              \<longrightarrow> pair_settled ts fl pc w st' i j"
    proof (intro ballI allI impI)
      fix idx2 j
      assume m: "idx2 \<in> set (neighbour_idxs i (length ts))"
        and h: "int i \<noteq> idx2 \<and> py_index (length ts) idx2 = Some j"
      then have "pair_settled ts fl pc w st1 i j" using c by blast
      moreover have "j < length ts" using h py_index_less by blast
      ultimately show "pair_settled ts fl pc w st' i j"
        using ih i l1 by (auto intro: pair_settled_kept)
    qed
    then show ?thesis using ih mk by auto
  qed
qed

lemma initial_state_agrees:
  "state_agrees ts \<lparr> batch_spike_times_samples = map Some ts,
                     remove_idx = replicate (length ts) False \<rparr>"
  by (simp add: state_agrees_iff)

lemma remove_duplicates_post:
  assumes "remove_duplicates ts cl am fl pc w = Inr m"
  shows "length m = length ts"
    and "length cl = length ts" and "length am = length ts" and "length fl = length ts"
    and "\<not> list_ex (\<lambda>c. c < 0) cl"
    and "\<And>i idx2 j. i < length ts \<Longrightarrow> idx2 \<in> set (neighbour_idxs i (length ts))
           \<Longrightarrow> int i \<noteq> idx2 \<Longrightarrow> py_index (length ts) idx2 = Some j
           \<Longrightarrow> m ! i \<or> m ! j \<or> \<not> duplicate_pair ts fl pc w i j"
proof -
  let ?st0 = "\<lparr> batch_spike_times_samples = map Some ts,
                remove_idx = replicate (length ts) False \<rparr>"
  from assms show lc: "length cl = length ts" and la: "length am = length ts"
    and lf: "length fl = length ts" and neg: "\<not> list_ex (\<lambda>c. c < 0) cl"
    by (auto simp: remove_duplicates_def Let_def split: if_splits)
  from assms lc la lf neg obtain st where
    run: "outer_loop cl am fl pc w [0..<length ts] ?st0 = Inr st" and m: "m = remove_idx st"
    by (auto simp: remove_duplicates_def Let_def split: if_splits sum.splits)
  have "\<forall>i\<in>set [0..<length ts]. i < length ts" by simp
  note p = outer_loop_post[OF initial_state_agrees this run]
  show "length m = length ts" using p m by (simp add: state_agrees_iff)
  show "\<And>i idx2 j. i < length ts \<Longrightarrow> idx2 \<in> set (neighbour_idxs i (length ts))
           \<Longrightarrow> int i \<noteq> idx2 \<Longrightarrow> py_index (length ts) idx2 = Some j
           \<Longrightarrow> m ! i \<or> m ! j \<or> \<not> duplicate_pair ts fl pc w i j"
  proof -
    fix i idx2 j
    assume "i < length ts" "idx2 \<in> set (neighbour_idxs i (length ts))"
      "int i \<noteq> idx2" "py_index (length ts) idx2 = Some j"
    then have "pair_settled ts fl pc w st i j" using p by auto
    then show "m ! i \<or> m ! j \<or> \<not> duplicate_pair ts fl pc w i j"
      by (simp add: pair_settled_def m)
  qed
qed

lemma near_pairs_settled:
  assumes "remove_duplicates ts cl am fl pc w = Inr m"
    and "i < j" and "j < length ts" and "j \<le> i + 25"
  shows "m ! i \<or> m ! j \<or> \<not> duplicate_pair ts fl pc w i j"
proof -
  have mem: "int i \<in> set (neighbour_idxs j (length ts))"
    using assms(2-4) by (auto simp: neighbour_idxs_def)
  have pi: "py_index (length ts) (int i) = Some i"
    using assms(2,3) by (simp add: py_index_def)
  have "m ! j \<or> m ! i \<or> \<not> duplicate_pair ts fl pc w j i"
    using remove_duplicates_post(6)[OF assms(1) assms(3) mem _ pi] assms(2) by simp
  then show ?thesis using duplicate_pair_sym[of ts fl pc w i j] by auto
qed

lemma neighbour_index_other:
  assumes "26 \<le> n" and "i < n" and "idx2 \<in> set (neighbour_idxs i n)" and "int i \<noteq> idx2"
  shows "\<exists>j. py_index n idx2 = Some j \<and> j < n \<and> j \<noteq> i"
proof -
  have r: "int i - 25 \<le> idx2" "idx2 < int n"
    using assms(3) by (auto simp: neighbour_idxs_def)
  show ?thesis
  proof (cases "0 \<le> idx2")
    case True
    then have "py_index n idx2 = Some (nat idx2)" using r by (simp add: py_index_def)
    moreover have "nat idx2 < n" using True r by linarith
    moreover have "nat idx2 \<noteq> i" using True assms(4) by linarith
    ultimately show ?thesis by blast
  next
    case False
    then have "py_index n idx2 = Some (nat (idx2 + int n))"
      using r assms(1) by (simp add: py_index_def)
    moreover have "nat (idx2 + int n) < n" using False r assms(1) by linarith
    moreover have "nat (idx2 + int n) \<noteq> i" using False r assms(1) by linarith
    ultimately show ?thesis by blast
  qed
qed

lemma compare_pair_unchanged:
  assumes ag: "state_agrees ts st" and n: "26 \<le> length ts" and i: "i < length ts"
    and mem: "idx2 \<in> set (neighbour_idxs i (length ts))"
    and look: "\<forall>k<length ts. \<exists>p. py_get pc (fl ! k) = Inr p"
    and nodup: "\<forall>a b. a < length ts \<and> b < length ts \<and> a \<noteq> b
                  \<longrightarrow> \<not> duplicate_pair ts fl pc w a b"
  shows "compare_pair cl am fl pc w i idx2 st = Inr st"
proof (cases "int i = idx2")
  case True
  then show ?thesis by (simp add: compare_pair_def)
next
  case ne: False
  have len: "length (remove_idx st) = length ts" using ag by (simp add: state_agrees_iff)
  obtain j where pj: "py_index (length ts) idx2 = Some j" and j: "j < length ts"
    and ji: "j \<noteq> i"
    using neighbour_index_other[OF n i mem ne] by blast
  obtain p1 where p1: "py_get pc (fl ! i) = Inr p1" using look i by blast
  obtain p2 where p2: "py_get pc (fl ! j) = Inr p2" using look j by blast
  have nd: "\<not> duplicate_pair ts fl pc w i j" using nodup i j ji by blast
  show ?thesis
  proof (cases "p1 = p2")
    case False
    then show ?thesis using ne pj p1 p2 by (simp add: compare_pair_def len)
  next
    case True
    then have "\<not> \<bar>ts ! i - ts ! j\<bar> \<le> w" using nd p1 p2 by (simp add: duplicate_pair_def)
    then have "\<not> within_window (batch_spike_times_samples st ! i)
                   (batch_spike_times_samples st ! j) w"
      using within_window_agrees[OF ag i j] by simp
    then show ?thesis using ne pj p1 p2 True by (simp add: compare_pair_def len Let_def)
  qed
qed

lemma inner_loop_unchanged:
  assumes "state_agrees ts st" and "26 \<le> length ts" and "i < length ts"
    and "set js \<subseteq> set (neighbour_idxs i (length ts))"
    and "\<forall>k<length ts. \<exists>p. py_get pc (fl ! k) = Inr p"
    and "\<forall>a b. a < length ts \<and> b < length ts \<and> a \<noteq> b \<longrightarrow> \<not> duplicate_pair ts fl pc w a b"
  shows "inner_loop cl am fl pc w i js st = Inr st"
  using assms(4)
proof (induction js)
  case Nil
  then show ?case by simp
next
  case (Cons idx2 js)
  have "idx2 \<in> set (neighbour_idxs i (length ts))" using Cons.prems by simp
  then have "compare_pair cl am fl pc w i idx2 st = Inr st"
    using compare_pair_unchanged[OF assms(1,2,3) _ assms(5,6)] by blast
  then show ?case using Cons by simp
qed

lemma outer_loop_unchanged:
  assumes "state_agrees ts st" and "26 \<le> length ts"
    and "\<forall>i\<in>set is. i < length ts"
    and "\<forall>k<length ts. \<exists>p. py_get pc (fl ! k) = Inr p"
    and "\<forall>a b. a < length ts \<and> b < length ts \<and> a \<noteq> b \<longrightarrow> \<not> duplicate_pair ts fl pc w a b"
  shows "outer_loop cl am fl pc w is st = Inr st"
  using assms(3)
proof (induction "is")
  case Nil
  then show ?case by simp
next
  case (Cons i "is")
  have len: "length (remove_idx st) = length ts"
    using assms(1) by (simp add: state_agrees_iff)
  have i: "i < length ts" using Cons.prems by simp
  have "inner_loop cl am fl pc w i (neighbour_idxs i (length ts)) st = Inr st"
    using inner_loop_unchanged[OF assms(1,2) i _ assms(4,5)] by blast
  then show ?case using Cons by (simp add: len)
qed

lemma remove_duplicates_no_duplicates:
  assumes "length cl = length ts" and "length am = length ts" and "length fl = length ts"
    and "\<not> list_ex (\<lambda>c. c < 0) cl" and "26 \<le> length ts"
    and "\<forall>k<length ts. \<exists>p. py_get pc (fl ! k) = Inr p"
    and "\<forall>a b. a < length ts \<and> b < length ts \<and> a \<noteq> b \<longrightarrow> \<not> duplicate_pair ts fl pc w a b"
  shows "remove_duplicates ts cl am fl pc w = Inr (replicate (length ts) False)"
proof -
  let ?st0 = "\<lparr> batch_spike_times_samples = map Some ts,
                remove_idx = replicate (length ts) False \<rparr>"
  have "\<forall>i\<in>set [0..<length ts]. i < length ts" by simp
  then have "outer_loop cl am fl pc w [0..<length ts] ?st0 = Inr ?st0"
    using outer_loop_unchanged[OF initial_state_agrees assms(5) _ assms(6,7)] by blast
  then show ?thesis using assms(1-4) by (simp add: remove_duplicates_def Let_def)
qed

lemma unmarked_Nil [simp]: "unmarked [] m = []" "unmarked xs [] = []"
  by (simp_all add: unmarked_def)

lemma unmarked_Cons [simp]:
  "unmarked (x # xs) (b # m) = (if b then unmarked xs m else x # unmarked xs m)"
  by (simp add: unmarked_def)

lemma unmarked_map: "unmarked (map f xs) m = map f (unmarked xs m)"
proof (induction xs arbitrary: m)
  case Nil
  then show ?case by simp
next
  case (Cons x xs)
  then show ?case by (cases m) auto
qed

lemma unmarked_zip:
  "unmarked (zip xs ys) m = zip (unmarked xs m) (unmarked ys m)"
proof (induction xs arbitrary: ys m)
  case Nil
  then show ?case by simp
next
  case (Cons x xs)
  show ?case
  proof (cases ys)
    case Nil
    then show ?thesis by simp
  next
    case ys: (Cons y ys')
    show ?thesis
    proof (cases m)
      case Nil
      then show ?thesis by simp
    next
      case (Cons b m')
      then show ?thesis using ys Cons.IH[of ys' m'] by simp
    qed
  qed
qed

lemma unmarked_all_False: "unmarked xs (replicate (length xs) False) = xs"
  by (induction xs) auto

lemma set_unmarked: "set (unmarked xs m) \<subseteq> set xs"
proof (induction xs arbitrary: m)
  case Nil
  then show ?case by simp
next
  case (Cons x xs)
  then show ?case by (cases m) auto
qed

lemma length_unmarked: "length (unmarked xs m) \<le> length xs"
proof (induction xs arbitrary: m)
  case Nil
  then show ?case by simp
next
  case (Cons x xs)
  show ?case
  proof (cases m)
    case Nil
    then show ?thesis by simp
  next
    case (Cons b m')
    then show ?thesis using Cons.IH[of m'] by auto
  qed
qed

lemma length_unmarked_same:
  "length xs = length ys \<Longrightarrow> length (unmarked xs m) = length (unmarked ys m)"
proof (induction xs ys arbitrary: m rule: list_induct2)
  case Nil
  then show ?case by simp
next
  case (Cons x xs y ys)
  then show ?case by (cases m) auto
qed

lemma unmarked_pairwise:
  assumes "\<forall>i j. i < j \<and> j < length xs \<longrightarrow> m ! i \<or> m ! j \<or> P (xs ! i) (xs ! j)"
    and "length m = length xs"
  shows "sorted_wrt P (unmarked xs m)"
proof -
  let ?R = "\<lambda>a b. snd a \<or> snd b \<or> P (fst a) (fst b)"
  have "sorted_wrt ?R (zip xs m)"
    using assms by (simp add: sorted_wrt_iff_nth_less)
  then have "sorted_wrt ?R (filter (\<lambda>(x, b). \<not> b) (zip xs m))"
    by (rule sorted_wrt_filter)
  then have "sorted_wrt (\<lambda>a b. P (fst a) (fst b)) (filter (\<lambda>(x, b). \<not> b) (zip xs m))"
    by (rule sorted_wrt_mono_rel[rotated]) auto
  then show ?thesis by (simp add: unmarked_def sorted_wrt_map)
qed

lemma spike_clusters_flat_same_units:
  assumes "set (unmarked cl m) = set cl"
  shows "spike_clusters_flat (unmarked cl m) = unmarked (spike_clusters_flat cl) m"
proof -
  have "sort (remdups (unmarked cl m)) = sort (remdups cl)"
    using assms by (metis sorted_list_of_set_sort_remdups)
  then show ?thesis by (simp add: spike_clusters_flat_def Let_def unmarked_map)
qed

lemma length_spike_clusters_flat: "length (spike_clusters_flat cl) = length cl"
  by (simp add: spike_clusters_flat_def Let_def)

lemma peak_channel_lookup:
  assumes "length (remdups cl) \<le> length pc" and "k < length cl"
  shows "\<exists>p. py_get pc (spike_clusters_flat cl ! k) = Inr p"
proof -
  let ?G = "sort (remdups cl)"
  let ?r = "length (filter (\<lambda>g. g < cl ! k) ?G)"
  have "cl ! k \<in> set ?G" using assms(2) by simp
  then have "?r < length ?G" by (rule length_filter_less) simp
  then have "?r < length pc" using assms(1) by simp
  moreover have "spike_clusters_flat cl ! k = int ?r"
    using assms(2) by (simp add: spike_clusters_flat_def Let_def)
  ultimately show ?thesis by (simp add: py_get_def)
qed

lemma single_batch_starts:
  assumes "0 < n" and "n \<le> 9900"
  shows "map (\<lambda>b. b * (batch_size - overlap_size))
           [0..<(n + (batch_size - overlap_size) - 1) div (batch_size - overlap_size)] = [0]"
proof -
  have "(n + 9900 - 1) div 9900 = 1" using assms by simp
  then show ?thesis by (simp add: batch_size_def overlap_size_def)
qed

lemma length_astype_float32: "length (astype_float32 xs) = length xs"
  by (simp add: astype_float32_def)

lemma unmarked_astype_float32:
  "unmarked (astype_float32 xs) m = astype_float32 (unmarked xs m)"
  by (simp add: astype_float32_def unmarked_map)

lemma np_squeeze_as_column: "np_squeeze (as_column xs) = xs"
  by (induction xs) (simp_all add: np_squeeze_def as_column_def)

lemma length_as_column: "length (as_column xs) = length xs"
  by (simp add: as_column_def)

lemma single_batch_loop:
  assumes "length ts \<le> 9900" and "length cl = length ts" and "length am = length ts"
    and "length fl = length ts" and "length d = length ts"
  shows "batch_loop ts cl am fl pc w [0] d
         = (case remove_duplicates (astype_float32 ts) cl am fl pc w of
              Inl e \<Rightarrow> Inl e
            | Inr m \<Rightarrow> Inr (m @ drop (length ts) d))"
proof -
  have "min (0 + batch_size) (length ts) = length ts"
    using assms(1) by (simp add: batch_size_def)
  then show ?thesis
    using assms(2-5) by (simp add: py_slice_def Let_def split: sum.splits)
qed

lemma first_run_single_batch:
  assumes "length ts \<le> 9900" and "remove_duplicate_spikes ts cl am pc w = Inr out1"
  shows "\<exists>m. remove_duplicates (astype_float32 ts) cl am (spike_clusters_flat cl) pc w = Inr m
             \<and> duplicate_spike_idx out1 = m
             \<and> spike_times_samples out1 = as_column (unmarked ts m)
             \<and> spike_clusters out1 = as_column (unmarked cl m)
             \<and> template_amplitudes out1 = as_column (unmarked am m)"
proof -
  let ?starts = "map (\<lambda>b. b * (batch_size - overlap_size))
           [0..<(length ts + (batch_size - overlap_size) - 1) div (batch_size - overlap_size)]"
  from assms(2) have ne: "cl \<noteq> []"
    by (auto simp: remove_duplicate_spikes_def Let_def split: if_splits)
  from assms(2) obtain mask where
    bl: "batch_loop ts cl am (spike_clusters_flat cl) pc w ?starts (replicate (length ts) False)
           = Inr mask"
    and lc: "length cl = length ts" and la: "length am = length ts"
    and o: "out1 = \<lparr> non_empty_units = sort (remdups (unmarked cl mask)),
                     duplicate_spike_idx = mask,
                     spike_times_samples = as_column (unmarked ts mask),
                     spike_clusters = as_column (unmarked cl mask),
                     template_amplitudes = as_column (unmarked am mask) \<rparr>"
    by (auto simp: remove_duplicate_spikes_def Let_def unmarked_def
        split: if_splits sum.splits)
  have pos: "0 < length ts" using ne lc by (cases cl) auto
  have st: "?starts = [0]" using single_batch_starts[OF pos assms(1)] .
  have lf: "length (spike_clusters_flat cl) = length ts"
    using lc by (simp add: length_spike_clusters_flat)
  have "batch_loop ts cl am (spike_clusters_flat cl) pc w [0] (replicate (length ts) False)
        = (case remove_duplicates (astype_float32 ts) cl am (spike_clusters_flat cl) pc w of
             Inl e \<Rightarrow> Inl e
           | Inr m \<Rightarrow> Inr (m @ drop (length ts) (replicate (length ts) False)))"
    by (rule single_batch_loop[OF assms(1) lc la lf]) simp
  with bl st
  have "remove_duplicates (astype_float32 ts) cl am (spike_clusters_flat cl) pc w = Inr mask"
    by (auto split: sum.splits)
  then show ?thesis using o by simp
qed

lemma second_run_single_batch:
  assumes "length ts \<le> 9900" and "cl \<noteq> []"
    and "remove_duplicates (astype_float32 ts) cl am (spike_clusters_flat cl) pc w
         = Inr (replicate (length ts) False)"
  shows "remove_duplicate_spikes ts cl am pc w
         = Inr \<lparr> non_empty_units = sort (remdups cl),
                 duplicate_spike_idx = replicate (length ts) False,
                 spike_times_samples = as_column ts,
                 spike_clusters = as_column cl,
                 template_amplitudes = as_column am \<rparr>"
proof -
  let ?starts = "map (\<lambda>b. b * (batch_size - overlap_size))
           [0..<(length ts + (batch_size - overlap_size) - 1) div (batch_size - overlap_size)]"
  note p0 = remove_duplicates_post(2-5)[OF assms(3)]
  have p: "length cl = length ts" "length am = length ts"
    "\<not> list_ex (\<lambda>c. c < 0) cl"
    using p0 by (simp_all add: length_astype_float32)
  have pos: "0 < length ts" using assms(2) p(1) by (cases cl) auto
  have st: "?starts = [0]" using single_batch_starts[OF pos assms(1)] .
  have lf: "length (spike_clusters_flat cl) = length ts"
    using p(1) by (simp add: length_spike_clusters_flat)
  have "batch_loop ts cl am (spike_clusters_flat cl) pc w [0] (replicate (length ts) False)
        = (case remove_duplicates (astype_float32 ts) cl am (spike_clusters_flat cl) pc w of
             Inl e \<Rightarrow> Inl e
           | Inr m \<Rightarrow> Inr (m @ drop (length ts) (replicate (length ts) False)))"
    by (rule single_batch_loop[OF assms(1) p(1) p(2) lf]) simp
  then have bl: "batch_loop ts cl am (spike_clusters_flat cl) pc w ?starts
                   (replicate (length ts) False) = Inr (replicate (length ts) False)"
    using assms(3) st by simp
  have u: "\<And>xs::'a list. length xs = length ts \<Longrightarrow>
             map fst (filter (\<lambda>(x, b). \<not> b) (zip xs (replicate (length ts) False))) = xs"
    using unmarked_all_False by (metis unmarked_def)
  have u1: "map fst (filter (\<lambda>(x, b). \<not> b) (zip ts (replicate (length ts) False))) = ts"
    by (rule u) simp
  show ?thesis
    using assms(2) p bl u1 u[OF p(1)] u[OF p(2)]
    by (simp add: remove_duplicate_spikes_def Let_def)
qed

text \<open>
  Where a second run marks nothing. Take a spike train that is resolved in a single batch
  (at most 9900 spikes), in which every pair of duplicates lies within 25 index positions
  and every unit has a peak channel. If the first run leaves at least 26 spikes and at
  least one spike of every unit, then a second run on the squeezed output, with the same
  peak channels and window, returns and marks no spike.
\<close>

lemma local_single_batch_second_run:
  assumes single: "length ts \<le> 9900"
    and run1: "remove_duplicate_spikes ts cl am pc w = Inr out1"
    and local: "\<forall>i j. i < j \<and> j < length ts
                  \<and> duplicate_pair (astype_float32 ts) (spike_clusters_flat cl) pc w i j
                  \<longrightarrow> j \<le> i + 25"
    and many: "26 \<le> length (spike_times_samples out1)"
    and units: "set (np_squeeze (spike_clusters out1)) = set cl"
    and chans: "length (remdups cl) \<le> length pc"
  shows "\<exists>out2. remove_duplicate_spikes (np_squeeze (spike_times_samples out1))
                  (np_squeeze (spike_clusters out1))
                  (np_squeeze (template_amplitudes out1)) pc w = Inr out2
           \<and> duplicate_spike_idx out2 = replicate (length (spike_times_samples out1)) False
           \<and> spike_times_samples out2 = spike_times_samples out1
           \<and> spike_clusters out2 = spike_clusters out1
           \<and> template_amplitudes out2 = template_amplitudes out1"
proof -
  let ?fl = "spike_clusters_flat cl"
  let ?T = "astype_float32 ts"
  obtain m where r1: "remove_duplicates ?T cl am ?fl pc w = Inr m"
    and o: "spike_times_samples out1 = as_column (unmarked ts m)"
      "spike_clusters out1 = as_column (unmarked cl m)"
      "template_amplitudes out1 = as_column (unmarked am m)"
    using first_run_single_batch[OF single run1] by blast
  let ?ts = "unmarked ts m" and ?cl = "unmarked cl m" and ?am = "unmarked am m"
  let ?T' = "astype_float32 ?ts"
  note p0 = remove_duplicates_post(1-5)[OF r1]
  have lT: "length ?T = length ts" by (rule length_astype_float32)
  have p: "length m = length ts" "length cl = length ts" "length am = length ts"
    "length ?fl = length ts" "\<not> list_ex (\<lambda>c. c < 0) cl"
    using p0 lT by simp_all
  have T': "?T' = unmarked ?T m" by (simp add: unmarked_astype_float32)
  have fl': "spike_clusters_flat ?cl = unmarked ?fl m"
    using units o(2) by (intro spike_clusters_flat_same_units) (simp add: np_squeeze_as_column)
  let ?D = "\<lambda>a b. \<not> (py_get pc (snd a) = py_get pc (snd b) \<and> \<bar>fst a - fst b\<bar> \<le> w)"
  have lz: "length (zip ?T ?fl) = length ts" using p(4) lT by simp
  have pw: "\<forall>i j. i < j \<and> j < length (zip ?T ?fl)
          \<longrightarrow> m ! i \<or> m ! j \<or> ?D (zip ?T ?fl ! i) (zip ?T ?fl ! j)"
  proof (intro allI impI)
    fix i j assume h: "i < j \<and> j < length (zip ?T ?fl)"
    then have ij: "i < j" and j: "j < length ts" using lz lT by simp_all
    have jT: "j < length ?T" using j lT by simp
    show "m ! i \<or> m ! j \<or> ?D (zip ?T ?fl ! i) (zip ?T ?fl ! j)"
    proof (cases "duplicate_pair ?T ?fl pc w i j")
      case True
      then have "j \<le> i + 25" using local ij j by blast
      then have "m ! i \<or> m ! j \<or> \<not> duplicate_pair ?T ?fl pc w i j"
        using near_pairs_settled[OF r1 ij jT] by blast
      then show ?thesis using True by blast
    next
      case False
      then show ?thesis using ij j p(4) lT by (simp add: duplicate_pair_def)
    qed
  qed
  have lm: "length m = length (zip ?T ?fl)" using p(1) lz by simp
  have "sorted_wrt ?D (unmarked (zip ?T ?fl) m)"
    using pw lm by (rule unmarked_pairwise)
  then have sw: "sorted_wrt ?D (zip ?T' (unmarked ?fl m))" by (simp add: unmarked_zip T')
  have l2: "length (unmarked ?fl m) = length ?T'" "length ?cl = length ?T'"
    "length ?am = length ?T'" "length ?ts = length ?T'"
    using p(2,3,4) by (auto simp: length_astype_float32 intro: length_unmarked_same)
  have nd_lt: "\<not> duplicate_pair ?T' (unmarked ?fl m) pc w a b"
    if "a < b" "b < length ?T'" for a b
  proof -
    have "?D (zip ?T' (unmarked ?fl m) ! a) (zip ?T' (unmarked ?fl m) ! b)"
      using sw that l2(1) by (simp add: sorted_wrt_iff_nth_less)
    then show ?thesis using that l2(1) by (simp add: duplicate_pair_def)
  qed
  have nd: "\<forall>a b. a < length ?T' \<and> b < length ?T' \<and> a \<noteq> b
              \<longrightarrow> \<not> duplicate_pair ?T' (spike_clusters_flat ?cl) pc w a b"
  proof (intro allI impI)
    fix a b assume h: "a < length ?T' \<and> b < length ?T' \<and> a \<noteq> b"
    show "\<not> duplicate_pair ?T' (spike_clusters_flat ?cl) pc w a b"
    proof (cases "a < b")
      case True
      then show ?thesis using nd_lt[of a b] h fl' by simp
    next
      case False
      then have "b < a" using h by simp
      then show ?thesis
        using nd_lt[of b a] h fl' duplicate_pair_sym[of ?T' "unmarked ?fl m" pc w a b] by simp
    qed
  qed
  have neg: "\<not> list_ex (\<lambda>c. c < 0) ?cl"
    using p(5) set_unmarked[of cl m] by (auto simp: list_ex_iff)
  have su: "set ?cl = set cl" using units o(2) by (simp add: np_squeeze_as_column)
  have "length (remdups ?cl) = length (remdups cl)"
    using su by (simp add: length_remdups_card_conv)
  then have ch: "length (remdups ?cl) \<le> length pc" using chans by simp
  have look: "\<forall>k<length ?T'. \<exists>p. py_get pc (spike_clusters_flat ?cl ! k) = Inr p"
    using peak_channel_lookup[OF ch] l2(2) by simp
  have many': "26 \<le> length ?T'"
    using many o(1) by (simp add: length_as_column length_astype_float32)
  have lfl: "length (spike_clusters_flat ?cl) = length ?T'"
    using l2(2) by (simp add: length_spike_clusters_flat)
  have r2: "remove_duplicates ?T' ?cl ?am (spike_clusters_flat ?cl) pc w
              = Inr (replicate (length ?T') False)"
    by (rule remove_duplicates_no_duplicates[OF l2(2) l2(3) lfl neg many' look nd])
  have r2': "remove_duplicates (astype_float32 ?ts) ?cl ?am (spike_clusters_flat ?cl) pc w
              = Inr (replicate (length ?ts) False)"
    using r2 by (simp add: length_astype_float32)
  have "length ?ts \<le> length ts" by (rule length_unmarked)
  then have s2: "length ?ts \<le> 9900" using single by simp
  have ne: "?cl \<noteq> []" using many' l2(2) by auto
  show ?thesis
    using second_run_single_batch[OF s2 ne r2'] o
    by (simp add: np_squeeze_as_column length_as_column)
qed

lemma lone_unit_first_run:
  "remove_duplicate_spikes (lone_unit_times 26) (replicate 26 0) (lone_unit_amplitudes 26) [5] 1
   = Inr \<lparr> non_empty_units = [0],
           duplicate_spike_idx = True # replicate 25 False,
           spike_times_samples = as_column (tl (lone_unit_times 26)),
           spike_clusters = as_column (replicate 25 0),
           template_amplitudes = as_column (tl (lone_unit_amplitudes 26)) \<rparr>"
  by code_simp

lemma lone_unit_second_run:
  "remove_duplicate_spikes (tl (lone_unit_times 26)) (replicate 25 0)
     (tl (lone_unit_amplitudes 26)) [5] 1
   = Inr \<lparr> non_empty_units = [],
           duplicate_spike_idx = replicate 25 True,
           spike_times_samples = [],
           spike_clusters = [],
           template_amplitudes = [] \<rparr>"
  by code_simp

text \<open>
  Claim C8. A train of 26 spikes of one unit whose first two spikes are the only
  duplicates. The first run marks spike 0, the weaker of the pair, and returns columns of
  25 rows. In the second run, on the squeezed columns with the same peak channels and
  window, the index \<open>spike_idx1 - 25\<close> wraps around to \<open>spike_idx1\<close> itself, the test
  \<open>spike_idx1 == spike_idx2\<close> does not see it, and every spike is marked as a duplicate
  of itself: the second run marks all 25 remaining spikes, not none.
\<close>

theorem second_run_marks_all_25_spikes:
  "remove_duplicate_spikes (lone_unit_times 26) (replicate 26 0) (lone_unit_amplitudes 26) [5] 1
   = Inr \<lparr> non_empty_units = [0],
           duplicate_spike_idx = True # replicate 25 False,
           spike_times_samples = as_column (tl (lone_unit_times 26)),
           spike_clusters = as_column (replicate 25 0),
           template_amplitudes = as_column (tl (lone_unit_amplitudes 26)) \<rparr>
   \<and> remove_duplicate_spikes (np_squeeze (as_column (tl (lone_unit_times 26))))
        (np_squeeze (as_column (replicate 25 0)))
        (np_squeeze (as_column (tl (lone_unit_amplitudes 26)))) [5] 1
     = Inr \<lparr> non_empty_units = [],
             duplicate_spike_idx = replicate 25 True,
             spike_times_samples = [],
             spike_clusters = [],
             template_amplitudes = [] \<rparr>"
  using lone_unit_first_run lone_unit_second_run by (simp add: np_squeeze_as_column)

end
